theory Spec2Isabelle
  imports Complex_Main "HOL-Library.Multiset" "HOL-Library.List_Lexorder"
begin

section \<open>JavaScript values used by the analyzer\<close>

text \<open>
  A JavaScript string is a sequence of UTF-16 code units; \<open>charCodeAt\<close> reads one of them
  as a number. The model keeps exactly that: a string is the list of its code units. The
  comparison \<open><\<close> of two JavaScript strings is the lexicographic order of the code units,
  which is the order of \<open>HOL-Library.List_Lexorder\<close> on \<open>nat list\<close>.
  Literals are written through \<open>js\<close>.
\<close>

type_synonym jsstring = "nat list"

definition js :: "string \<Rightarrow> jsstring" where
  "js s = map of_char s"

text \<open>
  JavaScript numbers are modelled by exact rationals. The numbers of the analyzer are
  integers far below \<open>2^53\<close>, on which the arithmetic of the program is exact, and
  decimals with one fractional digit; they are added, multiplied, floored, rounded to two
  decimals, subtracted and compared.
\<close>

type_synonym number = rat

subsection \<open>String primitives of the runtime\<close>

text \<open>
  \<open>String.prototype.trim\<close> removes WhiteSpace and LineTerminator code units from both
  ends: TAB, LF, VT, FF, CR, SP, NBSP, U+1680, U+2000..U+200A, U+2028, U+2029, U+202F,
  U+205F, U+3000 and U+FEFF.
\<close>

definition isWhiteSpace :: "nat \<Rightarrow> bool" where
  "isWhiteSpace c \<longleftrightarrow>
     (9 \<le> c \<and> c \<le> 13) \<or> c = 32 \<or> c = 160 \<or> c = 5760 \<or> (8192 \<le> c \<and> c \<le> 8202) \<or>
     c = 8232 \<or> c = 8233 \<or> c = 8239 \<or> c = 8287 \<or> c = 12288 \<or> c = 65279"

definition trim :: "jsstring \<Rightarrow> jsstring" where
  "trim s = rev (dropWhile isWhiteSpace (rev (dropWhile isWhiteSpace s)))"

text \<open>
  \<open>s.replace(p, r)\<close> with a string pattern \<open>p\<close> of one code unit replaces the first
  occurrence of \<open>p\<close> only, wherever it stands; later occurrences stay.
\<close>

fun replace :: "nat \<Rightarrow> jsstring \<Rightarrow> jsstring \<Rightarrow> jsstring" where
  "replace p r [] = []"
| "replace p r (c # s) = (if c = p then r @ s else c # replace p r s)"

section \<open>The client controller: handle slots\<close>

text \<open>\<open>addHandleInput\<close>: \<open>setHandles([...handles, ''])\<close>.\<close>

definition addHandleInput :: "jsstring list \<Rightarrow> jsstring list" where
  "addHandleInput handles = handles @ [[]]"

text \<open>
  \<open>removeHandleInput\<close>: \<open>handles.filter((_, i) => i !== index)\<close>, then \<open>['']\<close> when
  nothing is left.
\<close>

definition removeHandleInput :: "jsstring list \<Rightarrow> nat \<Rightarrow> jsstring list" where
  "removeHandleInput handles index =
     (let newHandles = map snd (filter (\<lambda>(i, _). i \<noteq> index) (enumerate 0 handles))
      in if length newHandles = 0 then [[]] else newHandles)"

text \<open>
  \<open>updateHandle\<close>: \<open>newHandles[index] = value.replace('@', '').trim()\<close> on a copy of the
  array. Writing past the end of a JavaScript array extends it and leaves the slots in
  between empty; an empty slot is \<open>None\<close> in the result.
\<close>

definition updateHandle :: "jsstring list \<Rightarrow> nat \<Rightarrow> jsstring \<Rightarrow> jsstring option list" where
  "updateHandle handles index value =
     (let newHandles = map Some handles; v = trim (replace 64 [] value)
      in if index < length newHandles then newHandles[index := Some v]
         else newHandles @ replicate (index - length newHandles) None @ [Some v])"

section \<open>The metrics endpoint\<close>

subsection \<open>Data\<close>

text \<open>
  \<open>interface InstagramData\<close>. The endpoint's interface has the first seven fields; the
  client's adds the optional \<open>status\<close> and \<open>error\<close>, absent (\<open>None\<close>) in what the
  endpoint sends.
\<close>

datatype status = Loading | Success | Error

record InstagramData =
  handle :: jsstring
  name :: jsstring
  followers :: number
  averageViews :: number
  category :: jsstring
  engagementRate :: number
  location :: jsstring
  status :: "status option"
  error :: "jsstring option"

text \<open>A parsed JSON value; an object is the association list of its properties, each
  key once.\<close>

datatype json =
    JNull
  | JBool bool
  | JNum number
  | JStr jsstring
  | JArr "json list"
  | JObj "(jsstring \<times> json) list"

text \<open>The body of a response: \<open>{ error: message }\<close> or the record.\<close>

datatype payload = ErrorBody jsstring | DataBody InstagramData

record response =
  http_status :: nat
  body :: payload

text \<open>What a request does besides answering, in the order it does it.\<close>

datatype effect = HttpGet jsstring | ConsoleLog jsstring | ConsoleError jsstring

text \<open>
  The answer of the outside world to \<open>axios.get(url)\<close> followed by the extraction of
  \<open>data.name\<close> from the page's \<open>application/ld+json\<close> script: the request fails or
  the page cannot be loaded (\<open>FetchFailed\<close>, the branch that logs), or a page arrives that
  holds such a name (\<open>Page (Some n)\<close>) or holds none that can be read (\<open>Page None\<close>: no
  script, or \<open>JSON.parse\<close> throws, or no name).
\<close>

datatype fetched = FetchFailed | Page "jsstring option"

subsection \<open>String operations used for the display name\<close>

text \<open>
  \<open>toUpperCase\<close> on the code units below U+0100 (Basic Latin and Latin-1: the small
  letters move down by 32, \<open>U+00B5\<close>, \<open>U+00DF\<close> and \<open>U+00FF\<close> have their own images);
  higher code units are outside this table and are kept. The endpoint applies it to
  validated handles only, which are Basic Latin.
\<close>

definition upperUnit :: "nat \<Rightarrow> jsstring" where
  "upperUnit c =
     (if 97 \<le> c \<and> c \<le> 122 then [c - 32]
      else if c = 181 then [924]
      else if c = 223 then [83, 83]
      else if 224 \<le> c \<and> c \<le> 254 \<and> c \<noteq> 247 then [c - 32]
      else if c = 255 then [376]
      else [c])"

definition toUpperCase :: "jsstring \<Rightarrow> jsstring" where
  "toUpperCase s = concat (map upperUnit s)"

definition charAt :: "jsstring \<Rightarrow> nat \<Rightarrow> jsstring" where
  "charAt s i = take 1 (drop i s)"

text \<open>\<open>s.slice(a)\<close> and \<open>s.slice(a, b)\<close> for indices that are not negative.\<close>

definition slice :: "jsstring \<Rightarrow> nat \<Rightarrow> jsstring" where
  "slice s a = drop a s"

definition slice2 :: "jsstring \<Rightarrow> nat \<Rightarrow> nat \<Rightarrow> jsstring" where
  "slice2 s a b = take (b - a) (drop a s)"

text \<open>\<open>s.split(/[._]/)\<close>: the pieces between separators, empty pieces included.\<close>

fun split :: "(nat \<Rightarrow> bool) \<Rightarrow> jsstring \<Rightarrow> jsstring list" where
  "split sep [] = [[]]"
| "split sep (c # s) =
     (if sep c then [] # split sep s
      else (case split sep s of [] \<Rightarrow> [[c]] | w # ws \<Rightarrow> (c # w) # ws))"

fun join :: "jsstring \<Rightarrow> jsstring list \<Rightarrow> jsstring" where
  "join sep [] = []"
| "join sep [w] = w"
| "join sep (w # ws) = w @ sep @ join sep ws"

subsection \<open>Numeric helpers\<close>

definition Math_floor :: "number \<Rightarrow> number" where
  "Math_floor x = of_int \<lfloor>x\<rfloor>"

text \<open>
  \<open>parseFloat(x.toFixed(2))\<close>: the decimal with two fractional digits nearest to \<open>x\<close>,
  the one of larger magnitude on a tie.
\<close>

definition toFixed2 :: "number \<Rightarrow> number" where
  "toFixed2 x = (if x < 0 then - (of_int \<lfloor>- x * 100 + 1 / 2\<rfloor> / 100)
                 else of_int \<lfloor>x * 100 + 1 / 2\<rfloor> / 100)"

subsection \<open>analyzeInstagramAccount\<close>

definition categories :: "jsstring list" where
  "categories = map js
     [''Influencer'', ''Brand'', ''Artist'', ''Content Creator'', ''Business'', ''Personal'',
      ''Celebrity'', ''Photographer'', ''Fashion'', ''Food & Beverage'', ''Travel'',
      ''Fitness'', ''Technology'', ''Education'', ''Entertainment'']"

text \<open>The twelfth label is kept as the source file has it: \<open>S\<close>, U+00C3, U+00A3, \<open>o Paulo\<close>.\<close>

definition locations :: "jsstring list" where
  "locations =
     map js [''Los Angeles, CA'', ''New York, NY'', ''Miami, FL'', ''London, UK'',
       ''Paris, France'', ''Tokyo, Japan'', ''Dubai, UAE'', ''Sydney, Australia'',
       ''Toronto, Canada'', ''Berlin, Germany'', ''Singapore''] @
     [js ''S'' @ [195, 163] @ js ''o Paulo, Brazil''] @
     map js [''Mumbai, India'', ''Seoul, South Korea'', ''Mexico City, Mexico'',
       ''Not specified'']"

text \<open>
  \<open>handle.split('').reduce((acc, char) => acc + char.charCodeAt(0), 0)\<close>: the pieces of
  \<open>split('')\<close> are the code units one by one, and \<open>charCodeAt(0)\<close> reads each back.
\<close>

definition hash_of :: "jsstring \<Rightarrow> nat" where
  "hash_of hdl = foldl (\<lambda>acc char. acc + char) 0 hdl"

definition nameVariants :: "jsstring \<Rightarrow> jsstring list" where
  "nameVariants hdl =
     [toUpperCase (charAt hdl 0) @ slice hdl 1,
      toUpperCase hdl,
      join (js '' '')
        (map (\<lambda>s. toUpperCase (charAt s 0) @ slice s 1) (split (\<lambda>c. c = 46 \<or> c = 95) hdl)),
      (toUpperCase (charAt hdl 0) @ slice2 hdl 1 4) @ js '' '' @
        (toUpperCase (charAt hdl 4) @ slice hdl 5)]"

definition profileUrl :: "jsstring \<Rightarrow> jsstring" where
  "profileUrl hdl = js ''https://www.instagram.com/'' @ hdl @ js ''/''"

text \<open>
  The function computes the generated record, then asks the network for the profile page.
  A page with a truthy (non-empty) name replaces the generated name and nothing else; a
  failed request is logged and absorbed. Nothing in the body throws on a string, so the
  outer \<open>catch\<close> is never entered.
\<close>

definition analyzeInstagramAccount ::
  "(jsstring \<Rightarrow> fetched) \<Rightarrow> jsstring \<Rightarrow> InstagramData \<times> effect list" where
  "analyzeInstagramAccount net hdl =
     (let url = profileUrl hdl;
          hash = hash_of hdl;
          followers' = Math_floor (1000 + of_nat ((hash * 157) mod 500000));
          averageViews' = Math_floor (followers' * (3 / 10 + of_nat (hash mod 10) / 20));
          engagementRate' = toFixed2 (3 / 2 + of_nat (hash mod 50) / 10);
          category' = categories ! (hash mod length categories);
          location' = locations ! (hash mod length locations);
          name' = nameVariants hdl ! (hash mod length (nameVariants hdl));
          generated = \<lparr>handle = hdl, name = name', followers = followers',
            averageViews = averageViews', category = category',
            engagementRate = engagementRate', location = location',
            status = None, error = None\<rparr>
      in case net url of
           FetchFailed \<Rightarrow>
             (generated,
              [HttpGet url,
               ConsoleLog (js ''Could not fetch data for '' @ hdl @ js '', using generated data'')])
         | Page None \<Rightarrow> (generated, [HttpGet url])
         | Page (Some n) \<Rightarrow>
             (if n \<noteq> [] then (generated\<lparr>name := n\<rparr>, [HttpGet url])
              else (generated, [HttpGet url])))"

subsection \<open>POST\<close>

text \<open>\<open>const { handle } = body\<close>: the property of an object, \<open>undefined\<close> (\<open>None\<close>) when the
  object has none or the body is a number, a string, a boolean or an array.\<close>

fun handleOf :: "json \<Rightarrow> json option" where
  "handleOf (JObj props) = map_of props (js ''handle'')"
| "handleOf _ = None"

text \<open>\<open>!v\<close> holds for \<open>undefined\<close>, \<open>null\<close>, \<open>false\<close>, \<open>0\<close> and \<open>''\<close>.\<close>

fun falsy :: "json option \<Rightarrow> bool" where
  "falsy None = True"
| "falsy (Some JNull) = True"
| "falsy (Some (JBool b)) = (\<not> b)"
| "falsy (Some (JNum n)) = (n = 0)"
| "falsy (Some (JStr s)) = (s = [])"
| "falsy (Some (JArr _)) = False"
| "falsy (Some (JObj _)) = False"

fun typeof :: "json option \<Rightarrow> string" where
  "typeof None = ''undefined''"
| "typeof (Some JNull) = ''object''"
| "typeof (Some (JBool _)) = ''boolean''"
| "typeof (Some (JNum _)) = ''number''"
| "typeof (Some (JStr _)) = ''string''"
| "typeof (Some (JArr _)) = ''object''"
| "typeof (Some (JObj _)) = ''object''"

text \<open>The character class \<open>[a-zA-Z0-9._]\<close>.\<close>

definition handleChar :: "nat \<Rightarrow> bool" where
  "handleChar c \<longleftrightarrow>
     (97 \<le> c \<and> c \<le> 122) \<or> (65 \<le> c \<and> c \<le> 90) \<or> (48 \<le> c \<and> c \<le> 57) \<or> c = 46 \<or> c = 95"

text \<open>\<open>/^[a-zA-Z0-9._]+$/.test(s)\<close>: one or more units, all of the class, up to the very
  end of the string.\<close>

definition handleFormat :: "jsstring \<Rightarrow> bool" where
  "handleFormat s \<longleftrightarrow> s \<noteq> [] \<and> list_all handleChar s"

definition badRequest :: "string \<Rightarrow> response \<times> effect list" where
  "badRequest msg = (\<lparr>http_status = 400, body = ErrorBody (js msg)\<rparr>, [])"

definition serverError :: "response \<times> effect list" where
  "serverError =
     (\<lparr>http_status = 500, body = ErrorBody (js ''Failed to analyze account. Please try again.'')\<rparr>,
      [ConsoleError (js ''Error analyzing account:'')])"

text \<open>
  The request is what \<open>await request.json()\<close> yields: \<open>None\<close> when it rejects (the body is
  not JSON), the parsed value otherwise. Destructuring \<open>null\<close> throws; both land in the
  handler's \<open>catch\<close>.
\<close>

definition POST :: "(jsstring \<Rightarrow> fetched) \<Rightarrow> json option \<Rightarrow> response \<times> effect list" where
  "POST net request =
     (case request of
        None \<Rightarrow> serverError
      | Some JNull \<Rightarrow> serverError
      | Some parsed \<Rightarrow>
          (let hdl = handleOf parsed in
           if falsy hdl \<or> typeof hdl \<noteq> ''string'' then badRequest ''Invalid handle provided''
           else (case hdl of
             Some (JStr s) \<Rightarrow>
               (let cleanHandle = trim (replace 64 [] s) in
                if length cleanHandle = 0 then badRequest ''Handle cannot be empty''
                else if \<not> handleFormat cleanHandle then badRequest ''Invalid handle format''
                else (let (data, effects) = analyzeInstagramAccount net cleanHandle
                      in (\<lparr>http_status = 200, body = DataBody data\<rparr>, effects)))
           | _ \<Rightarrow> serverError)))"

subsection \<open>Reference forms used in the statements\<close>

text \<open>A network on which every request fails: the endpoint without enrichment.\<close>

definition offline :: "jsstring \<Rightarrow> fetched" where
  "offline url = FetchFailed"

text \<open>
  The capitalization transforms in the words of the specification, on the handle
  alphabet: a small Basic Latin letter becomes the capital one, and a string is
  capitalized by doing that to its first unit.
\<close>

definition spec_upper :: "nat \<Rightarrow> nat" where
  "spec_upper c = (if 97 \<le> c \<and> c \<le> 122 then c - 32 else c)"

definition spec_capitalize :: "jsstring \<Rightarrow> jsstring" where
  "spec_capitalize s = (case s of [] \<Rightarrow> [] | c # r \<Rightarrow> spec_upper c # r)"

text \<open>The request \<open>{ "handle": "test" }\<close>.\<close>

definition testRequest :: "json option" where
  "testRequest = Some (JObj [(js ''handle'', JStr (js ''test''))])"

text \<open>The request \<open>{ "handle": s }\<close> and the three validation answers.\<close>

definition handleRequest :: "jsstring \<Rightarrow> json option" where
  "handleRequest s = Some (JObj [(js ''handle'', JStr s)])"

definition invalidProvided :: response where
  "invalidProvided = \<lparr>http_status = 400, body = ErrorBody (js ''Invalid handle provided'')\<rparr>"

definition cannotBeEmpty :: response where
  "cannotBeEmpty = \<lparr>http_status = 400, body = ErrorBody (js ''Handle cannot be empty'')\<rparr>"

definition invalidFormat :: response where
  "invalidFormat = \<lparr>http_status = 400, body = ErrorBody (js ''Invalid handle format'')\<rparr>"

text \<open>
  Stripping a leading \<open>@\<close> in the words of the specification: the first unit goes when
  it is \<open>@\<close>, and nothing else changes.
\<close>

definition spec_stripLeadingAt :: "jsstring \<Rightarrow> jsstring" where
  "spec_stripLeadingAt s = (case s of [] \<Rightarrow> [] | c # r \<Rightarrow> if c = 64 then r else s)"

section \<open>The client controller: analysis, sorting, export\<close>

subsection \<open>State\<close>

datatype direction = asc | desc

text \<open>\<open>keyof InstagramData\<close>.\<close>

datatype key =
    K_handle | K_name | K_followers | K_averageViews | K_category | K_engagementRate
  | K_location | K_status | K_error

record SortConfig =
  key :: key
  direction :: direction

text \<open>The four \<open>useState\<close> cells of the component.\<close>

record state =
  handles :: "jsstring list"
  results :: "InstagramData list"
  loading :: bool
  sortConfig :: "SortConfig option"

definition initialState :: state where
  "initialState = \<lparr>handles = [[]], results = [], loading = False, sortConfig = None\<rparr>"

subsection \<open>analyzeAccounts\<close>

text \<open>
  What one pass through the body of the \<open>try\<close> comes to. \<open>Rejected\<close>: something in it
  throws (\<open>fetch\<close> rejects, the body is not JSON, or \<open>data.error\<close> is read off \<open>null\<close>), and
  the \<open>catch\<close> runs. \<open>Ok data\<close>: \<open>response.ok\<close> holds and \<open>data\<close> is the parsed body, read at
  the type \<open>InstagramData\<close> the results array is declared with. \<open>NotOk e\<close>: \<open>response.ok\<close>
  fails and \<open>e\<close> is the body's \<open>error\<close> property, \<open>None\<close> when it has none.
\<close>

datatype outcome = Rejected | Ok InstagramData | NotOk "jsstring option"

text \<open>The record pushed for one handle.\<close>

definition pushed :: "jsstring \<Rightarrow> outcome \<Rightarrow> InstagramData" where
  "pushed hdl out =
     (case out of
        Ok data \<Rightarrow> data\<lparr>status := Some Success\<rparr>
      | NotOk e \<Rightarrow>
          \<lparr>handle = hdl, name = js ''N/A'', followers = 0, averageViews = 0,
           category = js ''N/A'', engagementRate = 0, location = js ''N/A'',
           status = Some Error,
           error = Some (case e of
                           None \<Rightarrow> js ''Failed to fetch data''
                         | Some m \<Rightarrow> if m \<noteq> [] then m else js ''Failed to fetch data'')\<rparr>
      | Rejected \<Rightarrow>
          \<lparr>handle = hdl, name = js ''N/A'', followers = 0, averageViews = 0,
           category = js ''N/A'', engagementRate = 0, location = js ''N/A'',
           status = Some Error, error = Some (js ''Network error'')\<rparr>)"

text \<open>
  The \<open>for ... of\<close> loop: requests go out one after the other; \<open>fetch i hdl\<close> is the
  outcome of request number \<open>i\<close>, sent for \<open>hdl\<close>.
\<close>

fun analyzeLoop ::
  "(nat \<Rightarrow> jsstring \<Rightarrow> outcome) \<Rightarrow> nat \<Rightarrow> jsstring list \<Rightarrow> InstagramData list \<Rightarrow> InstagramData list"
where
  "analyzeLoop fetch i [] newResults = newResults"
| "analyzeLoop fetch i (hdl # rest) newResults =
     analyzeLoop fetch (Suc i) rest (newResults @ [pushed hdl (fetch i hdl)])"

text \<open>The filter \<open>h => h.trim() !== ''\<close>.\<close>

definition notBlank :: "jsstring \<Rightarrow> bool" where
  "notBlank h \<longleftrightarrow> trim h \<noteq> []"

definition analyzeAccounts :: "(nat \<Rightarrow> jsstring \<Rightarrow> outcome) \<Rightarrow> state \<Rightarrow> state" where
  "analyzeAccounts fetch s =
     (let validHandles = filter notBlank (handles s) in
      if length validHandles = 0 then s
      else (let s1 = s\<lparr>loading := True\<rparr>;
                newResults = analyzeLoop fetch 0 validHandles []
            in s1\<lparr>results := newResults, loading := False\<rparr>))"

subsection \<open>Sorting\<close>

definition sortData :: "key \<Rightarrow> state \<Rightarrow> state" where
  "sortData k s =
     (let direction' =
        (case sortConfig s of
           None \<Rightarrow> asc
         | Some c \<Rightarrow> if key c = k \<and> direction c = asc then desc else asc)
      in s\<lparr>sortConfig := Some \<lparr>key = k, direction = direction'\<rparr>\<rparr>)"

text \<open>The value \<open>a[key]\<close> of a row: a string, a number, or \<open>undefined\<close> for an optional
  field that is absent.\<close>

datatype jsval = Undefined | Number number | String jsstring

fun statusString :: "status \<Rightarrow> jsstring" where
  "statusString Loading = js ''loading''"
| "statusString Success = js ''success''"
| "statusString Error = js ''error''"

fun field :: "key \<Rightarrow> InstagramData \<Rightarrow> jsval" where
  "field K_handle r = String (handle r)"
| "field K_name r = String (name r)"
| "field K_followers r = Number (followers r)"
| "field K_averageViews r = Number (averageViews r)"
| "field K_category r = String (category r)"
| "field K_engagementRate r = Number (engagementRate r)"
| "field K_location r = String (location r)"
| "field K_status r = (case status r of None \<Rightarrow> Undefined | Some st \<Rightarrow> String (statusString st))"
| "field K_error r = (case error r of None \<Rightarrow> Undefined | Some m \<Rightarrow> String m)"

text \<open>
  Two functions of the JavaScript engine are tables that are not part of the repository:
  the Unicode lower-case mapping behind \<open>toLowerCase\<close> and the number formatting behind
  \<open>String(n)\<close>. The controller takes them as an \<open>engine\<close>.
\<close>

record engine =
  toLowerCase :: "jsstring \<Rightarrow> jsstring"
  numberToString :: "number \<Rightarrow> jsstring"

fun String_of :: "engine \<Rightarrow> jsval \<Rightarrow> jsstring" where
  "String_of E Undefined = js ''undefined''"
| "String_of E (Number n) = numberToString E n"
| "String_of E (String s) = s"

text \<open>The comparison function handed to \<open>sort\<close>.\<close>

definition compareFn :: "engine \<Rightarrow> SortConfig \<Rightarrow> InstagramData \<Rightarrow> InstagramData \<Rightarrow> number" where
  "compareFn E c a b =
     (let aVal = field (key c) a; bVal = field (key c) b in
      case (aVal, bVal) of
        (Number x, Number y) \<Rightarrow> (if direction c = asc then x - y else y - x)
      | _ \<Rightarrow>
          (let aStr = toLowerCase E (String_of E aVal);
               bStr = toLowerCase E (String_of E bVal)
           in if aStr < bStr then (if direction c = asc then - 1 else 1)
              else if aStr > bStr then (if direction c = asc then 1 else - 1)
              else 0))"

text \<open>
  \<open>Array.prototype.sort(compareFn)\<close> is stable, and with a consistent comparison function
  it returns the one arrangement in which no element is followed by one that compares
  smaller and elements that compare equal keep their order. Inserting the elements from
  the right, each before the first element it does not compare greater than, computes it.
\<close>

fun insertBy :: "('a \<Rightarrow> 'a \<Rightarrow> number) \<Rightarrow> 'a \<Rightarrow> 'a list \<Rightarrow> 'a list" where
  "insertBy cmp x [] = [x]"
| "insertBy cmp x (y # ys) = (if cmp x y \<le> 0 then x # y # ys else y # insertBy cmp x ys)"

definition sort_js :: "('a \<Rightarrow> 'a \<Rightarrow> number) \<Rightarrow> 'a list \<Rightarrow> 'a list" where
  "sort_js cmp xs = foldr (insertBy cmp) xs []"

definition getSortedResults :: "engine \<Rightarrow> state \<Rightarrow> InstagramData list" where
  "getSortedResults E s =
     (case sortConfig s of
        None \<Rightarrow> results s
      | Some c \<Rightarrow> sort_js (compareFn E c) (results s))"

subsection \<open>Export\<close>

text \<open>
  The objects handed to \<open>Papa.unparse\<close>: the seven columns in this order under their
  headers. \<open>Papa.unparse\<close> itself belongs to the papaparse library; the export functions
  take it as \<open>unparse\<close>.
\<close>

type_synonym csvrow = "(jsstring \<times> jsval) list"

definition csvData :: "InstagramData list \<Rightarrow> csvrow list" where
  "csvData rs = map (\<lambda>r.
     [(js ''Handle'', String (handle r)),
      (js ''Name'', String (name r)),
      (js ''Followers'', Number (followers r)),
      (js ''Average Views'', Number (averageViews r)),
      (js ''Category'', String (category r)),
      (js ''Engagement Rate (%)'', Number (engagementRate r)),
      (js ''Location'', String (location r))]) rs"

text \<open>What the browser is made to download: the blob's text and type, and the file name.\<close>

record download =
  content :: jsstring
  mime :: jsstring
  filename :: jsstring

text \<open>\<open>new Date().toISOString().split('T')[0]\<close>, for the clock reading \<open>now\<close>.\<close>

definition isoDate :: "jsstring \<Rightarrow> jsstring" where
  "isoDate now = takeWhile (\<lambda>c. c \<noteq> 84) now"

definition exportToCSV :: "(csvrow list \<Rightarrow> jsstring) \<Rightarrow> jsstring \<Rightarrow> state \<Rightarrow> download" where
  "exportToCSV unparse now s =
     (let csvData' = csvData (results s);
          csv = unparse csvData'
      in \<lparr>content = csv, mime = js ''text/csv'',
          filename = js ''instagram-analysis-'' @ isoDate now @ js ''.csv''\<rparr>)"

definition exportToExcel :: "(csvrow list \<Rightarrow> jsstring) \<Rightarrow> jsstring \<Rightarrow> state \<Rightarrow> download" where
  "exportToExcel unparse now s =
     (let data = csvData (results s);
          csv = unparse data
      in \<lparr>content = csv, mime = js ''application/vnd.ms-excel'',
          filename = js ''instagram-analysis-'' @ isoDate now @ js ''.xlsx''\<rparr>)"

subsection \<open>The order of the specification, and sample data\<close>

text \<open>
  The comparison in the words of the specification: row \<open>a\<close> may stand before row \<open>b\<close>
  when, both values at the key being numbers, they are in numeric order, and otherwise
  when the lower-cased string forms are in lexicographic order; descending turns both
  around.
\<close>

definition spec_notAfter :: "engine \<Rightarrow> SortConfig \<Rightarrow> InstagramData \<Rightarrow> InstagramData \<Rightarrow> bool" where
  "spec_notAfter E c a b =
     (case (field (key c) a, field (key c) b) of
        (Number x, Number y) \<Rightarrow> (if direction c = asc then x \<le> y else y \<le> x)
      | (u, v) \<Rightarrow>
          (if direction c = asc
           then toLowerCase E (String_of E u) \<le> toLowerCase E (String_of E v)
           else toLowerCase E (String_of E v) \<le> toLowerCase E (String_of E u)))"

text \<open>
  An engine for the examples: it lowers the letters \<open>A\<close> to \<open>Z\<close> and prints a natural
  number in decimal, as every engine does on these inputs.
\<close>

fun digits :: "nat \<Rightarrow> jsstring" where
  "digits n = (if n < 10 then [48 + n] else digits (n div 10) @ [48 + n mod 10])"

definition basicLatin :: engine where
  "basicLatin =
     \<lparr>toLowerCase = map (\<lambda>c. if 65 \<le> c \<and> c \<le> 90 then c + 32 else c),
      numberToString = (\<lambda>n. digits (nat \<lfloor>n\<rfloor>))\<rparr>"

text \<open>Sample rows: the row of a failed request, and two rows of successful ones.\<close>

definition failedRow :: "string \<Rightarrow> InstagramData" where
  "failedRow h = pushed (js h) Rejected"

definition testRow :: InstagramData where
  "testRow =
     \<lparr>handle = js ''test'', name = js ''Test'', followers = 71336, averageViews = 49935,
      category = js ''Education'', engagementRate = 63 / 10,
      location = js ''Los Angeles, CA'', status = Some Success, error = None\<rparr>"

definition abRow :: InstagramData where
  "abRow =
     \<lparr>handle = js ''ab.cd'', name = js ''Ab.cd'', followers = 70080, averageViews = 21024,
      category = js ''Personal'', engagementRate = 11 / 2,
      location = js ''Toronto, Canada'', status = Some Success, error = None\<rparr>"

text \<open>Sample states of the controller.\<close>

definition zetaAlpha :: state where
  "zetaAlpha =
     \<lparr>handles = [js ''Zeta'', js ''alpha''],
      results = [failedRow ''Zeta'', failedRow ''alpha''],
      loading = False,
      sortConfig = Some \<lparr>key = K_handle, direction = asc\<rparr>\<rparr>"

definition tieState :: state where
  "tieState =
     \<lparr>handles = [js ''a!'', js ''b!'', js ''test''],
      results = [failedRow ''a!'', failedRow ''b!'', testRow],
      loading = False,
      sortConfig = None\<rparr>"

definition distinctState :: state where
  "distinctState =
     \<lparr>handles = [js ''test'', js ''x!'', js ''ab.cd''],
      results = [testRow, failedRow ''x!'', abRow],
      loading = False,
      sortConfig = None\<rparr>"

text \<open>
  A sample sequence of outcomes: the first request fails on the network, a later one for
  \<open>test\<close> succeeds, any other is refused by the endpoint.
\<close>

definition sampleFetch :: "nat \<Rightarrow> jsstring \<Rightarrow> outcome" where
  "sampleFetch i hdl =
     (if i = 0 then Rejected
      else if hdl = js ''test'' then Ok (testRow\<lparr>status := None\<rparr>)
      else NotOk (Some (js ''Invalid handle format'')))"

text \<open>A state whose only handle is blank and that still shows an earlier result, and a
  state with three handles to analyze.\<close>

definition staleState :: state where
  "staleState =
     \<lparr>handles = [[]], results = [testRow], loading = False, sortConfig = None\<rparr>"

definition batchState :: state where
  "batchState =
     \<lparr>handles = [js ''gone'', [], js ''test'', js ''a!''], results = [abRow], loading = False,
      sortConfig = None\<rparr>"

text \<open>A plain serializer for the examples (header from the first row, no quoting), and
  a clock reading.\<close>

definition plainUnparse :: "csvrow list \<Rightarrow> jsstring" where
  "plainUnparse rows =
     (case rows of
        [] \<Rightarrow> []
      | r # _ \<Rightarrow>
          join (js '','') (map fst r) @
          concat (map (\<lambda>row. [13, 10] @ join (js '','') (map (\<lambda>(_, v). String_of basicLatin v) row)) rows))"

definition sampleNow :: jsstring where
  "sampleNow = js ''2024-05-01T10:20:30.000Z''"

section \<open>Properties\<close>

subsection \<open>Handle slots\<close>

lemma filter_enumerate_neq:
  "map snd (filter (\<lambda>(i, _). i \<noteq> k + n) (enumerate n xs)) = take k xs @ drop (Suc k) xs"
proof (induction xs arbitrary: n k)
  case Nil
  show ?case by simp
next
  case (Cons x xs)
  show ?case
  proof (cases k)
    case 0
    have "filter (\<lambda>(i, _). i \<noteq> n) (enumerate (Suc n) xs) = enumerate (Suc n) xs"
      by (rule filter_True) (auto simp: in_set_enumerate_eq)
    with 0 show ?thesis by simp
  next
    case (Suc j)
    with Cons.IH [of j "Suc n"] show ?thesis by simp
  qed
qed

text \<open>
  C8. Whatever the handle list and the index, \<open>removeHandleInput\<close> returns a non-empty
  list: the list without the entry at the index (an index past the end removes nothing),
  or the single empty entry \<open>['']\<close> when that would be empty. Removing the only slot of a
  one-slot list leaves exactly one empty slot.
\<close>

theorem removeHandleInput_nonempty:
  "removeHandleInput hs index \<noteq> [] \<and>
   removeHandleInput hs index =
     (if take index hs @ drop (Suc index) hs = [] then [[]]
      else take index hs @ drop (Suc index) hs) \<and>
   removeHandleInput [h] 0 = [[]]"
proof -
  let ?rest = "take index hs @ drop (Suc index) hs"
  have eq: "map snd (filter (\<lambda>(i, _). i \<noteq> index) (enumerate 0 hs)) = ?rest"
    using filter_enumerate_neq [of index 0 hs] by simp
  have main: "removeHandleInput hs index = (if ?rest = [] then [[]] else ?rest)"
    unfolding removeHandleInput_def Let_def eq length_0_conv ..
  have ne: "removeHandleInput hs index \<noteq> []"
    unfolding main by (cases "?rest = []") simp_all
  have one: "removeHandleInput [h] 0 = [[]]"
    by (simp add: removeHandleInput_def)
  from ne main one show ?thesis by blast
qed

subsection \<open>Metric derivation\<close>

lemma upperUnit_handleChar: "handleChar c \<Longrightarrow> upperUnit c = [spec_upper c]"
  by (auto simp: handleChar_def upperUnit_def spec_upper_def)

lemma toUpperCase_handle: "list_all handleChar s \<Longrightarrow> toUpperCase s = map spec_upper s"
  by (induction s) (simp_all add: toUpperCase_def upperUnit_handleChar)

lemma capitalize_handle:
  "list_all handleChar s \<Longrightarrow> toUpperCase (charAt s 0) @ slice s 1 = spec_capitalize s"
  by (cases s) (simp_all add: charAt_def slice_def spec_capitalize_def toUpperCase_def upperUnit_handleChar)

lemma split_pieces: "list_all P s \<Longrightarrow> list_all (list_all P) (split sep s)"
  by (induction s) (auto split: list.splits)

lemma hash_of_sum: "hash_of s = sum_list s"
proof -
  have "foldl (\<lambda>acc char. acc + char) a s = a + sum_list s" for a
    by (induction s arbitrary: a) simp_all
  then show ?thesis by (simp add: hash_of_def)
qed

lemma length_categories: "length categories = 15" by (simp add: categories_def)
lemma length_locations: "length locations = 16" by (simp add: locations_def)
lemma length_nameVariants: "length (nameVariants h) = 4" by (simp add: nameVariants_def)

lemma Math_floor_nat: "Math_floor (of_nat n) = of_nat n"
  by (simp add: Math_floor_def)

lemma followers_eq: "Math_floor (1000 + of_nat m) = of_nat (1000 + m)"
  using Math_floor_nat [of "1000 + m"] by simp

lemma views_eq:
  "Math_floor (of_nat f * (3 / 10 + of_nat k / 20)) = of_nat ((f * (6 + k)) div 20)"
proof -
  have e: "(of_nat f :: rat) * (3 / 10 + of_nat k / 20) = of_nat (f * (6 + k)) / of_nat 20"
    by (simp add: field_simps)
  have "\<lfloor>(of_nat (f * (6 + k)) :: rat) / of_nat 20\<rfloor> = int ((f * (6 + k)) div 20)"
    by (simp only: floor_divide_of_nat_eq)
  then show ?thesis unfolding Math_floor_def e by simp
qed

lemma rate_eq: "toFixed2 (3 / 2 + of_nat k / 10) = 3 / 2 + of_nat k / 10"
proof -
  have e: "(3 / 2 + of_nat k / 10 :: rat) * 100 + 1 / 2 = of_int (int (150 + 10 * k)) + 1 / 2"
    by (simp add: field_simps)
  have f: "\<lfloor>(of_int (int (150 + 10 * k)) + 1 / 2 :: rat)\<rfloor> = int (150 + 10 * k)"
    by (rule floor_unique) simp_all
  have n: "\<not> (3 / 2 + of_nat k / 10 :: rat) < 0"
    by (simp add: not_less add_nonneg_nonneg)
  show ?thesis unfolding toFixed2_def e f using n by (simp add: field_simps)
qed

text \<open>
  C1. For every valid handle \<open>h\<close> (non-empty, all units in \<open>[A-Za-z0-9._]\<close>) and without
  enrichment (the page request fails, or the page gives no name), the record has \<open>hash\<close> = the sum of the code units of \<open>h\<close>,
  \<open>followers = 1000 + (hash * 157) mod 500000\<close>,
  \<open>averageViews = floor (followers * (0.3 + (hash mod 10) / 20))\<close> (which is
  \<open>followers * (6 + hash mod 10) div 20\<close>), \<open>engagementRate = 1.5 + (hash mod 50) / 10\<close>,
  a number with at most two decimals, the category at index \<open>hash mod 15\<close> of the 15
  labels, the location at index \<open>hash mod 16\<close> of the 16 labels, and as name the
  capitalization transform number \<open>hash mod 4\<close> of the four.
\<close>

theorem analyzeInstagramAccount_metrics:
  assumes valid: "handleFormat h"
    and plain: "net (profileUrl h) = FetchFailed \<or> net (profileUrl h) = Page None \<or>
      net (profileUrl h) = Page (Some [])"
  shows "handle (fst (analyzeInstagramAccount net h)) = h \<and>
    hash_of h = sum_list h \<and>
    followers (fst (analyzeInstagramAccount net h)) = of_nat (1000 + (sum_list h * 157) mod 500000) \<and>
    averageViews (fst (analyzeInstagramAccount net h)) =
      of_int \<lfloor>followers (fst (analyzeInstagramAccount net h)) * (3 / 10 + of_nat (sum_list h mod 10) / 20)\<rfloor> \<and>
    averageViews (fst (analyzeInstagramAccount net h)) =
      of_nat (((1000 + (sum_list h * 157) mod 500000) * (6 + sum_list h mod 10)) div 20) \<and>
    engagementRate (fst (analyzeInstagramAccount net h)) = 3 / 2 + of_nat (sum_list h mod 50) / 10 \<and>
    engagementRate (fst (analyzeInstagramAccount net h)) * 100 = of_nat (150 + 10 * (sum_list h mod 50)) \<and>
    length categories = 15 \<and>
    category (fst (analyzeInstagramAccount net h)) = categories ! (sum_list h mod 15) \<and>
    length locations = 16 \<and>
    location (fst (analyzeInstagramAccount net h)) = locations ! (sum_list h mod 16) \<and>
    name (fst (analyzeInstagramAccount net h)) =
      [spec_capitalize h,
       map spec_upper h,
       join (js '' '') (map spec_capitalize (split (\<lambda>c. c = 46 \<or> c = 95) h)),
       spec_capitalize (take 4 h) @ js '' '' @ spec_capitalize (drop 4 h)] ! (sum_list h mod 4)"
proof -
  let ?d = "fst (analyzeInstagramAccount net h)"
  let ?m = "(sum_list h * 157) mod 500000"
  from valid have all: "list_all handleChar h" by (simp add: handleFormat_def)
  have f: "followers ?d = of_nat (1000 + ?m)"
    using plain by (auto simp: analyzeInstagramAccount_def Let_def hash_of_sum followers_eq)
  have v: "averageViews ?d = Math_floor (of_nat (1000 + ?m) * (3 / 10 + of_nat (sum_list h mod 10) / 20))"
    using plain by (auto simp: analyzeInstagramAccount_def Let_def hash_of_sum followers_eq)
  have v1: "averageViews ?d = of_int \<lfloor>followers ?d * (3 / 10 + of_nat (sum_list h mod 10) / 20)\<rfloor>"
    unfolding v f Math_floor_def ..
  have v2: "averageViews ?d = of_nat (((1000 + ?m) * (6 + sum_list h mod 10)) div 20)"
    unfolding v views_eq ..
  have e: "engagementRate ?d = 3 / 2 + of_nat (sum_list h mod 50) / 10"
    using plain by (auto simp: analyzeInstagramAccount_def Let_def hash_of_sum rate_eq)
  have e2: "engagementRate ?d * 100 = of_nat (150 + 10 * (sum_list h mod 50))"
    unfolding e by (simp add: field_simps)
  have c: "category ?d = categories ! (sum_list h mod 15)"
    using plain by (auto simp: analyzeInstagramAccount_def Let_def hash_of_sum length_categories)
  have l: "location ?d = locations ! (sum_list h mod 16)"
    using plain by (auto simp: analyzeInstagramAccount_def Let_def hash_of_sum length_locations)
  have hd: "handle ?d = h"
    using plain by (auto simp: analyzeInstagramAccount_def Let_def)
  have n0: "name ?d = nameVariants h ! (sum_list h mod 4)"
    using plain by (auto simp: analyzeInstagramAccount_def Let_def hash_of_sum length_nameVariants)
  have p1: "toUpperCase (charAt h 0) @ slice h 1 = spec_capitalize h"
    using all by (rule capitalize_handle)
  have p2: "toUpperCase h = map spec_upper h"
    using all by (rule toUpperCase_handle)
  have p3: "map (\<lambda>s. toUpperCase (charAt s 0) @ slice s 1) (split (\<lambda>c. c = 46 \<or> c = 95) h)
      = map spec_capitalize (split (\<lambda>c. c = 46 \<or> c = 95) h)"
  proof (rule map_cong [OF refl])
    fix w assume "w \<in> set (split (\<lambda>c. c = 46 \<or> c = 95) h)"
    with split_pieces [OF all, of "\<lambda>c. c = 46 \<or> c = 95"] have "list_all handleChar w"
      unfolding list_all_iff [of "list_all handleChar"] by blast
    then show "toUpperCase (charAt w 0) @ slice w 1 = spec_capitalize w"
      by (rule capitalize_handle)
  qed
  have p4a: "toUpperCase (charAt h 0) @ slice2 h 1 4 = spec_capitalize (take 4 h)"
    using all by (cases h) (simp_all add: charAt_def slice2_def spec_capitalize_def toUpperCase_def upperUnit_handleChar)
  have "list_all handleChar (drop 4 h)"
    using all by (auto simp: list_all_iff dest: in_set_dropD)
  moreover have "charAt h 4 = charAt (drop 4 h) 0" and "slice h 5 = slice (drop 4 h) 1"
    by (simp_all add: charAt_def slice_def)
  ultimately have p4b: "toUpperCase (charAt h 4) @ slice h 5 = spec_capitalize (drop 4 h)"
    using capitalize_handle [of "drop 4 h"] by simp
  have nv: "nameVariants h = [spec_capitalize h, map spec_upper h,
       join (js '' '') (map spec_capitalize (split (\<lambda>c. c = 46 \<or> c = 95) h)),
       spec_capitalize (take 4 h) @ js '' '' @ spec_capitalize (drop 4 h)]"
    unfolding nameVariants_def p1 p2 p3 p4a p4b ..
  show ?thesis
    using hd hash_of_sum f v1 v2 e e2 length_categories c length_locations l n0 [unfolded nv]
    by blast
qed

theorem analyzeInstagramAccount_metrics_witness:
  "handleFormat (js ''ab.cd'') \<and>
   offline (profileUrl (js ''ab.cd'')) = FetchFailed \<and>
   sum_list (js ''ab.cd'') = 440 \<and>
   followers (fst (analyzeInstagramAccount offline (js ''ab.cd''))) = 70080 \<and>
   averageViews (fst (analyzeInstagramAccount offline (js ''ab.cd''))) = 21024 \<and>
   engagementRate (fst (analyzeInstagramAccount offline (js ''ab.cd''))) = 11 / 2 \<and>
   category (fst (analyzeInstagramAccount offline (js ''ab.cd''))) = js ''Personal'' \<and>
   location (fst (analyzeInstagramAccount offline (js ''ab.cd''))) = js ''Toronto, Canada'' \<and>
   name (fst (analyzeInstagramAccount offline (js ''ab.cd''))) = js ''Ab.cd''"
proof -
  have v: "handleFormat (js ''ab.cd'')"
    by (simp add: handleFormat_def handleChar_def js_def)
  have o: "offline (profileUrl (js ''ab.cd'')) = FetchFailed"
    by (simp add: offline_def)
  then have p: "offline (profileUrl (js ''ab.cd'')) = FetchFailed \<or>
      offline (profileUrl (js ''ab.cd'')) = Page None \<or>
      offline (profileUrl (js ''ab.cd'')) = Page (Some [])" ..
  have s: "sum_list (js ''ab.cd'') = 440"
    by (simp add: js_def)
  show ?thesis
    using analyzeInstagramAccount_metrics [of "js ''ab.cd''" offline, OF v p] v o
    unfolding s by (simp add: categories_def locations_def spec_capitalize_def spec_upper_def js_def)
qed

subsection \<open>The handle \<open>test\<close>\<close>

lemma trim_test: "trim (replace 64 [] (js ''test'')) = js ''test''"
  by (simp add: trim_def isWhiteSpace_def js_def)

lemma handleFormat_test: "handleFormat (js ''test'')"
  by (simp add: handleFormat_def handleChar_def js_def)

lemma floor_rat_numeral: "\<lfloor>(numeral a :: rat) / numeral b\<rfloor> = numeral a div numeral b"
  by (metis floor_divide_of_int_eq of_int_numeral)

lemma analyze_test:
  "fst (analyzeInstagramAccount offline (js ''test'')) =
        \<lparr>handle = js ''test'', name = js ''Test'', followers = 71336, averageViews = 49935,
         category = js ''Education'', engagementRate = 63 / 10,
         location = js ''Los Angeles, CA'', status = None, error = None\<rparr>"
proof -
  have h: "hash_of (js ''test'') = 448"
    by (simp add: hash_of_def js_def)
  have n: "nameVariants (js ''test'') ! 0 = js ''Test''"
    by (simp add: nameVariants_def toUpperCase_def upperUnit_def charAt_def slice_def js_def)
  have c: "categories ! 13 = js ''Education''" by (simp add: categories_def)
  have l: "locations ! 0 = js ''Los Angeles, CA''" by (simp add: locations_def)
  show ?thesis
    by (simp add: analyzeInstagramAccount_def Let_def offline_def h n c l length_categories
        length_locations length_nameVariants Math_floor_def toFixed2_def floor_rat_numeral)
qed

text \<open>
  C2 as stated fails on the category: for the handle \<open>test\<close> the hash is 448 and the
  index \<open>448 mod 15 = 13\<close>, but the label at index 13 of the list is \<open>Education\<close>;
  \<open>Fashion\<close> stands at index 8.
\<close>

theorem test_handle_counterexample:
  "fst (POST offline testRequest) =
     \<lparr>http_status = 200, body = DataBody
        \<lparr>handle = js ''test'', name = js ''Test'', followers = 71336, averageViews = 49935,
         category = js ''Education'', engagementRate = 63 / 10,
         location = js ''Los Angeles, CA'', status = None, error = None\<rparr>\<rparr> \<and>
   js ''Education'' \<noteq> js ''Fashion'' \<and>
   categories ! 13 = js ''Education'' \<and> categories ! 8 = js ''Fashion''"
proof -
  have P: "POST offline testRequest =
      (\<lparr>http_status = 200, body = DataBody (fst (analyzeInstagramAccount offline (js ''test'')))\<rparr>,
       snd (analyzeInstagramAccount offline (js ''test'')))"
    using handleFormat_test
    by (simp add: POST_def testRequest_def Let_def trim_test split_beta) (simp add: js_def)
  have "js ''Education'' \<noteq> js ''Fashion''" by (simp add: js_def)
  moreover have "categories ! 13 = js ''Education''" "categories ! 8 = js ''Fashion''"
    by (simp_all add: categories_def)
  ultimately show ?thesis unfolding P analyze_test by simp
qed

text \<open>
  C2, amended. For the handle \<open>test\<close> the endpoint answers 200 with \<open>followers = 71336\<close>
  (hash 448), category \<open>Education\<close> (index 13 of the list) and location
  \<open>Los Angeles, CA\<close> (index 0), whatever the enrichment does.
\<close>

theorem test_handle_metrics:
  "hash_of (js ''test'') = 448 \<and>
   (\<exists>d. fst (POST net testRequest) = \<lparr>http_status = 200, body = DataBody d\<rparr> \<and>
      followers d = 71336 \<and>
      category d = js ''Education'' \<and> categories ! 13 = js ''Education'' \<and>
      location d = js ''Los Angeles, CA'' \<and> locations ! 0 = js ''Los Angeles, CA'')"
proof -
  have h: "hash_of (js ''test'') = 448"
    by (simp add: hash_of_def js_def)
  have P: "POST net testRequest =
      (\<lparr>http_status = 200, body = DataBody (fst (analyzeInstagramAccount net (js ''test'')))\<rparr>,
       snd (analyzeInstagramAccount net (js ''test'')))"
    using handleFormat_test
    by (simp add: POST_def testRequest_def Let_def trim_test split_beta) (simp add: js_def)
  let ?d = "fst (analyzeInstagramAccount net (js ''test''))"
  have f: "followers ?d = 71336"
    using followers_eq [of 70336]
    by (simp add: analyzeInstagramAccount_def Let_def h split: fetched.split option.split)
  have c13: "categories ! 13 = js ''Education''"
    by (simp add: categories_def)
  have l0: "locations ! 0 = js ''Los Angeles, CA''"
    by (simp add: locations_def)
  have c: "category ?d = js ''Education''"
    using c13 by (simp add: analyzeInstagramAccount_def Let_def h length_categories split: fetched.split option.split)
  have l: "location ?d = js ''Los Angeles, CA''"
    using l0 by (simp add: analyzeInstagramAccount_def Let_def h length_locations split: fetched.split option.split)
  show ?thesis using h P f c c13 l l0 by simp
qed

subsection \<open>Validation in the handler\<close>

lemma messages_distinct:
  "invalidProvided \<noteq> cannotBeEmpty" "invalidProvided \<noteq> invalidFormat"
  "cannotBeEmpty \<noteq> invalidFormat"
  by (simp_all add: invalidProvided_def cannotBeEmpty_def invalidFormat_def js_def)

lemma not_string_cases:
  "(falsy hdl \<or> typeof hdl \<noteq> ''string'') \<longleftrightarrow> (\<forall>s. hdl = Some (JStr s) \<longrightarrow> s = [])"
proof (cases hdl)
  case None
  then show ?thesis by simp
next
  case (Some v)
  then show ?thesis by (cases v) simp_all
qed

lemma POST_not_string:
  assumes "parsed \<noteq> JNull" and "\<forall>s. handleOf parsed = Some (JStr s) \<longrightarrow> s = []"
  shows "POST net (Some parsed) = (invalidProvided, [])"
proof -
  from assms(2) have "falsy (handleOf parsed) \<or> typeof (handleOf parsed) \<noteq> ''string''"
    by (simp only: not_string_cases)
  with assms(1) show ?thesis
    by (cases parsed) (simp_all add: POST_def Let_def badRequest_def invalidProvided_def del: handleOf.simps)
qed

lemma POST_string:
  assumes "parsed \<noteq> JNull" and "handleOf parsed = Some (JStr s)" and "s \<noteq> []"
  shows "POST net (Some parsed) =
    (if trim (replace 64 [] s) = [] then (cannotBeEmpty, [])
     else if \<not> list_all handleChar (trim (replace 64 [] s)) then (invalidFormat, [])
     else (\<lparr>http_status = 200,
             body = DataBody (fst (analyzeInstagramAccount net (trim (replace 64 [] s))))\<rparr>,
           snd (analyzeInstagramAccount net (trim (replace 64 [] s)))))"
  using assms
  by (cases parsed)
    (simp_all add: POST_def Let_def badRequest_def cannotBeEmpty_def invalidFormat_def
      handleFormat_def split_beta del: handleOf.simps)

lemma analyze_handle: "handle (fst (analyzeInstagramAccount net h)) = h"
  by (simp add: analyzeInstagramAccount_def Let_def split: fetched.split option.split)

text \<open>
  C3 as stated fails on the empty string: \<open>{ "handle": "" }\<close> carries a handle that is
  present and is a string, and that is empty after cleaning, yet the guard \<open>!handle\<close>
  answers it with \<open>Invalid handle provided\<close>, not with \<open>Handle cannot be empty\<close>.
\<close>

theorem POST_empty_string_counterexample:
  "handleOf (JObj [(js ''handle'', JStr [])]) = Some (JStr []) \<and>
   trim (replace 64 [] []) = [] \<and>
   POST offline (handleRequest []) = (invalidProvided, []) \<and>
   invalidProvided \<noteq> cannotBeEmpty"
  using messages_distinct(1)
  by (simp add: handleRequest_def POST_def Let_def badRequest_def invalidProvided_def trim_def)

text \<open>
  C3, amended. For a request whose body parses to a value other than \<open>null\<close>: the answer
  is 400 \<open>Invalid handle provided\<close> iff the handle is missing, not a string, or the empty
  string; 400 \<open>Handle cannot be empty\<close> iff it is a non-empty string that is empty after
  removing \<open>@\<close> and trimming; 400 \<open>Invalid handle format\<close> iff the cleaned handle has a
  unit outside \<open>[A-Za-z0-9._]\<close>; in every other case it is 200 with the record of the
  cleaned handle. An answer with status 400 comes with no effect at all. A body that
  does not parse, or is \<open>null\<close>, is answered with 500.
\<close>

theorem POST_validation:
  assumes "parsed \<noteq> JNull"
  shows
   "(fst (POST net (Some parsed)) = invalidProvided
       \<longleftrightarrow> (\<forall>s. handleOf parsed = Some (JStr s) \<longrightarrow> s = [])) \<and>
    (fst (POST net (Some parsed)) = cannotBeEmpty
       \<longleftrightarrow> (\<exists>s. handleOf parsed = Some (JStr s) \<and> s \<noteq> [] \<and> trim (replace 64 [] s) = [])) \<and>
    (fst (POST net (Some parsed)) = invalidFormat
       \<longleftrightarrow> (\<exists>s. handleOf parsed = Some (JStr s) \<and>
              (\<exists>c \<in> set (trim (replace 64 [] s)). \<not> handleChar c))) \<and>
    ((\<exists>d. fst (POST net (Some parsed)) = \<lparr>http_status = 200, body = DataBody d\<rparr> \<and>
           handle d = trim (replace 64 [] (case handleOf parsed of Some (JStr s) \<Rightarrow> s | _ \<Rightarrow> [])))
       \<longleftrightarrow> fst (POST net (Some parsed)) \<notin> {invalidProvided, cannotBeEmpty, invalidFormat}) \<and>
    (http_status (fst (POST net (Some parsed))) = 400 \<longrightarrow> snd (POST net (Some parsed)) = []) \<and>
    http_status (fst (POST net None)) = 500 \<and> http_status (fst (POST net (Some JNull))) = 500"
proof (cases "\<forall>s. handleOf parsed = Some (JStr s) \<longrightarrow> s = []")
  case True
  have P: "POST net (Some parsed) = (invalidProvided, [])"
    using assms True by (rule POST_not_string)
  have "\<not> (\<exists>s. handleOf parsed = Some (JStr s) \<and> s \<noteq> [] \<and> trim (replace 64 [] s) = [])"
    using True by blast
  moreover have "\<not> (\<exists>s. handleOf parsed = Some (JStr s) \<and>
      (\<exists>c \<in> set (trim (replace 64 [] s)). \<not> handleChar c))"
    using True by (auto simp: trim_def)
  moreover have "\<not> (\<exists>d. invalidProvided = \<lparr>http_status = 200, body = DataBody d\<rparr> \<and> Q d)" for Q
    by (simp add: invalidProvided_def)
  ultimately show ?thesis
    unfolding P using True messages_distinct
    by (simp add: invalidProvided_def POST_def serverError_def)
next
  case False
  then obtain s where s: "handleOf parsed = Some (JStr s)" "s \<noteq> []" by blast
  let ?c = "trim (replace 64 [] s)"
  note P = POST_string [OF assms s, of net]
  have five: "http_status (fst (POST net None)) = 500 \<and> http_status (fst (POST net (Some JNull))) = 500"
    by (simp add: POST_def serverError_def)
  consider (empty) "?c = []" | (bad) "?c \<noteq> []" "\<not> list_all handleChar ?c"
    | (good) "?c \<noteq> []" "list_all handleChar ?c" by blast
  then show ?thesis
  proof cases
    case empty
    with P have R: "POST net (Some parsed) = (cannotBeEmpty, [])" by simp
    show ?thesis
      unfolding R using s empty messages_distinct five
      by (auto simp: cannotBeEmpty_def)
  next
    case bad
    with P have R: "POST net (Some parsed) = (invalidFormat, [])" by simp
    from bad have "\<exists>c \<in> set ?c. \<not> handleChar c" by (simp add: list_all_iff)
    then show ?thesis
      unfolding R using s bad messages_distinct five
      by (auto simp: invalidFormat_def)
  next
    case good
    with P have R: "POST net (Some parsed) =
      (\<lparr>http_status = 200, body = DataBody (fst (analyzeInstagramAccount net ?c))\<rparr>,
       snd (analyzeInstagramAccount net ?c))" by simp
    from good have nb: "\<not> (\<exists>c \<in> set ?c. \<not> handleChar c)" by (simp add: list_all_iff)
    show ?thesis
      unfolding R using s good nb five analyze_handle [of net ?c]
      by (auto simp: invalidProvided_def cannotBeEmpty_def invalidFormat_def)
  qed
qed

theorem POST_validation_witness:
  "JObj [(js ''handle'', JStr (js ''bad handle!''))] \<noteq> JNull \<and>
   fst (POST offline (handleRequest (js ''bad handle!''))) = invalidFormat \<and>
   snd (POST offline (handleRequest (js ''bad handle!''))) = []"
proof -
  let ?p = "JObj [(js ''handle'', JStr (js ''bad handle!''))]"
  have ne: "?p \<noteq> JNull" by simp
  have t: "trim (replace 64 [] (js ''bad handle!'')) = js ''bad handle!''"
    by (simp add: trim_def isWhiteSpace_def js_def)
  have "\<exists>s. handleOf ?p = Some (JStr s) \<and> (\<exists>c \<in> set (trim (replace 64 [] s)). \<not> handleChar c)"
    unfolding handleOf.simps by (simp add: t) (simp add: js_def handleChar_def)
  with POST_validation [OF ne, of offline]
  have f: "fst (POST offline (Some ?p)) = invalidFormat" by blast
  with POST_validation [OF ne, of offline]
  have "snd (POST offline (Some ?p)) = []" by (simp add: invalidFormat_def)
  with ne f show ?thesis by (simp add: handleRequest_def)
qed

subsection \<open>Cleaning a handle\<close>

lemma replace_remove1: "replace c [] s = remove1 c s"
  by (induction s) auto

lemma trim_decompose:
  "s = takeWhile isWhiteSpace s @ trim s @ rev (takeWhile isWhiteSpace (rev (dropWhile isWhiteSpace s)))"
proof -
  let ?t = "dropWhile isWhiteSpace s"
  have "?t = rev (dropWhile isWhiteSpace (rev ?t)) @ rev (takeWhile isWhiteSpace (rev ?t))"
    by (metis rev_append rev_rev_ident takeWhile_dropWhile_id)
  then have "?t = trim s @ rev (takeWhile isWhiteSpace (rev ?t))"
    by (simp only: trim_def)
  moreover have "s = takeWhile isWhiteSpace s @ ?t" by simp
  ultimately show ?thesis by simp
qed

lemma trim_ends:
  assumes "trim s \<noteq> []"
  shows "\<not> isWhiteSpace (hd (trim s))" and "\<not> isWhiteSpace (last (trim s))"
proof -
  let ?t = "dropWhile isWhiteSpace s"
  let ?u = "dropWhile isWhiteSpace (rev ?t)"
  from assms have u: "?u \<noteq> []" by (simp add: trim_def)
  have t: "?t \<noteq> []"
  proof
    assume "?t = []"
    then have "?u = []" by (simp only: rev.simps(1) dropWhile.simps(1))
    with u show False ..
  qed
  have "last (trim s) = hd ?u" using u by (simp add: trim_def last_rev)
  moreover have "\<not> isWhiteSpace (hd ?u)" using u by (rule hd_dropWhile)
  ultimately show "\<not> isWhiteSpace (last (trim s))" by simp
  have "rev ?t = takeWhile isWhiteSpace (rev ?t) @ ?u" by simp
  then have "last (rev ?t) = last ?u" using u by (metis last_appendR)
  then have "hd (trim s) = hd ?t" using u t by (simp add: trim_def hd_rev last_rev)
  moreover have "\<not> isWhiteSpace (hd ?t)" using t by (rule hd_dropWhile)
  ultimately show "\<not> isWhiteSpace (hd (trim s))" by simp
qed

lemma updateHandle_nth: "updateHandle hs index value ! index = Some (trim (replace 64 [] value))"
  by (simp add: updateHandle_def Let_def nth_append)

text \<open>
  C7 as stated fails when the \<open>@\<close> is not in front: \<open>a@b\<close> has no leading \<open>@\<close> and no
  surrounding whitespace, so it would be kept as it is, but both the client and the
  endpoint turn it into \<open>ab\<close>.
\<close>

theorem handle_cleaning_counterexample:
  "updateHandle [[]] 0 (js ''a@b'') = [Some (js ''ab'')] \<and>
   fst (POST offline (handleRequest (js ''a@b''))) =
     \<lparr>http_status = 200, body = DataBody (fst (analyzeInstagramAccount offline (js ''ab'')))\<rparr> \<and>
   handle (fst (analyzeInstagramAccount offline (js ''ab''))) = js ''ab'' \<and>
   trim (spec_stripLeadingAt (js ''a@b'')) = js ''a@b'' \<and>
   spec_stripLeadingAt (trim (js ''a@b'')) = js ''a@b'' \<and>
   js ''ab'' \<noteq> js ''a@b''"
proof -
  have t: "trim (replace 64 [] (js ''a@b'')) = js ''ab''"
    by (simp add: trim_def isWhiteSpace_def js_def)
  have u: "updateHandle [[]] 0 (js ''a@b'') = [Some (js ''ab'')]"
    by (simp add: updateHandle_def Let_def t)
  have f: "handleFormat (js ''ab'')"
    by (simp add: handleFormat_def handleChar_def js_def)
  have p: "fst (POST offline (handleRequest (js ''a@b''))) =
     \<lparr>http_status = 200, body = DataBody (fst (analyzeInstagramAccount offline (js ''ab'')))\<rparr>"
    using f by (simp add: handleRequest_def POST_def Let_def t split_beta) (simp add: js_def)
  have s1: "trim (spec_stripLeadingAt (js ''a@b'')) = js ''a@b''"
    by (simp add: trim_def isWhiteSpace_def spec_stripLeadingAt_def js_def)
  have s2: "spec_stripLeadingAt (trim (js ''a@b'')) = js ''a@b''"
    by (simp add: trim_def isWhiteSpace_def spec_stripLeadingAt_def js_def)
  have "js ''ab'' \<noteq> js ''a@b''" by (simp add: js_def)
  with u p s1 s2 analyze_handle [of offline "js ''ab''"] show ?thesis by simp
qed

text \<open>
  C7, amended. The stored handle, and the handle the endpoint validates and returns, is
  the input with its first \<open>@\<close> removed, wherever that stands, and then trimmed: the
  result sits in the input-without-that-\<open>@\<close> between a whitespace prefix and a whitespace
  suffix, and neither begins nor ends with whitespace. Nothing else is changed.
\<close>

theorem handle_cleaning:
  "updateHandle hs index value ! index = Some (trim (replace 64 [] value)) \<and>
   replace 64 [] value = remove1 64 value \<and>
   (\<exists>pre post. remove1 64 value = pre @ trim (remove1 64 value) @ post \<and>
      list_all isWhiteSpace pre \<and> list_all isWhiteSpace post) \<and>
   (trim (remove1 64 value) \<noteq> [] \<longrightarrow>
      \<not> isWhiteSpace (hd (trim (remove1 64 value))) \<and>
      \<not> isWhiteSpace (last (trim (remove1 64 value)))) \<and>
   (handleFormat (trim (remove1 64 value)) \<longrightarrow>
      (\<exists>d. fst (POST net (handleRequest value)) = \<lparr>http_status = 200, body = DataBody d\<rparr> \<and>
           handle d = trim (remove1 64 value)))"
proof -
  let ?r = "remove1 64 value"
  have r: "replace 64 [] value = ?r" by (rule replace_remove1)
  have "?r = takeWhile isWhiteSpace ?r @ trim ?r @
      rev (takeWhile isWhiteSpace (rev (dropWhile isWhiteSpace ?r)))"
    by (rule trim_decompose)
  moreover have "list_all isWhiteSpace (takeWhile isWhiteSpace ?r)"
    by (simp add: list_all_iff) (meson set_takeWhileD)
  moreover have "list_all isWhiteSpace (rev (takeWhile isWhiteSpace (rev (dropWhile isWhiteSpace ?r))))"
    by (simp add: list_all_iff) (meson set_takeWhileD)
  ultimately have d: "\<exists>pre post. ?r = pre @ trim ?r @ post \<and>
      list_all isWhiteSpace pre \<and> list_all isWhiteSpace post" by blast
  have e: "trim ?r \<noteq> [] \<longrightarrow> \<not> isWhiteSpace (hd (trim ?r)) \<and> \<not> isWhiteSpace (last (trim ?r))"
    using trim_ends [of ?r] by blast
  have p: "handleFormat (trim ?r) \<longrightarrow>
      (\<exists>d. fst (POST net (handleRequest value)) = \<lparr>http_status = 200, body = DataBody d\<rparr> \<and>
           handle d = trim ?r)"
  proof
    assume f: "handleFormat (trim ?r)"
    then have "trim ?r \<noteq> []" by (simp add: handleFormat_def)
    then have "value \<noteq> []" by (auto simp: trim_def)
    from POST_string [of "JObj [(js ''handle'', JStr value)]" "value" net] this f
    have "fst (POST net (handleRequest value)) =
       \<lparr>http_status = 200, body = DataBody (fst (analyzeInstagramAccount net (trim ?r)))\<rparr>"
      by (simp add: handleRequest_def r handleFormat_def)
    with analyze_handle [of net "trim ?r"] show "\<exists>d. fst (POST net (handleRequest value)) =
        \<lparr>http_status = 200, body = DataBody d\<rparr> \<and> handle d = trim ?r" by simp
  qed
  from updateHandle_nth [of hs index "value"] r d e p show ?thesis by simp
qed

theorem handle_cleaning_witness:
  "updateHandle [[]] 0 (js '' @ab  '') ! 0 = Some (js ''ab'') \<and>
   handleFormat (js ''ab'') \<and>
   (\<exists>d. fst (POST offline (handleRequest (js '' @ab  ''))) = \<lparr>http_status = 200, body = DataBody d\<rparr> \<and>
        handle d = js ''ab'')"
proof -
  have t: "trim (remove1 64 (js '' @ab  '')) = js ''ab''"
    by (simp add: trim_def isWhiteSpace_def js_def)
  have f: "handleFormat (js ''ab'')"
    by (simp add: handleFormat_def handleChar_def js_def)
  from handle_cleaning [of "[[]]" 0 "js '' @ab  ''" offline] f show ?thesis
    by (simp add: t)
qed

subsection \<open>Stable sorting by a comparison function\<close>

lemma mset_insertBy: "mset (insertBy cmp x ys) = add_mset x (mset ys)"
  by (induction ys) simp_all


lemma set_insertBy: "set (insertBy cmp x ys) = insert x (set ys)"
  using mset_insertBy [of cmp x ys, THEN arg_cong, of set_mset] by simp

lemma sorted_insertBy:
  assumes total: "\<And>a b. cmp a b \<le> 0 \<or> cmp b a \<le> 0"
    and trans: "\<And>a b c. cmp a b \<le> 0 \<Longrightarrow> cmp b c \<le> 0 \<Longrightarrow> cmp a c \<le> 0"
    and sorted: "sorted_wrt (\<lambda>a b. cmp a b \<le> 0) ys"
  shows "sorted_wrt (\<lambda>a b. cmp a b \<le> 0) (insertBy cmp x ys)"
  using sorted
proof (induction ys)
  case Nil
  show ?case by simp
next
  case (Cons y ys)
  show ?case
  proof (cases "cmp x y \<le> 0")
    case True
    with Cons.prems trans show ?thesis by auto
  next
    case False
    with total [of x y] have "cmp y x \<le> 0" by simp
    with False Cons show ?thesis by (auto simp: set_insertBy)
  qed
qed

lemma sorted_sort_js:
  assumes "\<And>a b. cmp a b \<le> 0 \<or> cmp b a \<le> 0"
    and "\<And>a b c. cmp a b \<le> 0 \<Longrightarrow> cmp b c \<le> 0 \<Longrightarrow> cmp a c \<le> 0"
  shows "sorted_wrt (\<lambda>a b. cmp a b \<le> 0) (sort_js cmp xs)"
proof (induction xs)
  case Nil
  show ?case by (simp add: sort_js_def)
next
  case (Cons x xs)
  from sorted_insertBy [of cmp "sort_js cmp xs" x, OF assms Cons]
  show ?case by (simp add: sort_js_def)
qed

text \<open>Elements that compare equal to \<open>r\<close> are never overtaken by an insertion.\<close>

lemma filter_insertBy:
  assumes trans: "\<And>a b c. cmp a b \<le> 0 \<Longrightarrow> cmp b c \<le> 0 \<Longrightarrow> cmp a c \<le> 0"
  shows "filter (\<lambda>y. cmp r y \<le> 0 \<and> cmp y r \<le> 0) (insertBy cmp x ys) =
         filter (\<lambda>y. cmp r y \<le> 0 \<and> cmp y r \<le> 0) (x # ys)"
proof (induction ys)
  case Nil
  show ?case by simp
next
  case (Cons y ys)
  show ?case
  proof (cases "cmp x y \<le> 0")
    case True
    then show ?thesis by simp
  next
    case False
    have "\<not> ((cmp r x \<le> 0 \<and> cmp x r \<le> 0) \<and> (cmp r y \<le> 0 \<and> cmp y r \<le> 0))"
      using False trans [of x r y] by blast
    with False Cons show ?thesis by auto
  qed
qed

lemma filter_sort_js:
  assumes "\<And>a b c. cmp a b \<le> 0 \<Longrightarrow> cmp b c \<le> 0 \<Longrightarrow> cmp a c \<le> 0"
  shows "filter (\<lambda>y. cmp r y \<le> 0 \<and> cmp y r \<le> 0) (sort_js cmp xs) =
         filter (\<lambda>y. cmp r y \<le> 0 \<and> cmp y r \<le> 0) xs"
proof (induction xs)
  case Nil
  show ?case by (simp add: sort_js_def)
next
  case (Cons x xs)
  have "filter (\<lambda>y. cmp r y \<le> 0 \<and> cmp y r \<le> 0) (sort_js cmp (x # xs)) =
        filter (\<lambda>y. cmp r y \<le> 0 \<and> cmp y r \<le> 0) (x # sort_js cmp xs)"
    using filter_insertBy [of cmp r x "sort_js cmp xs", OF assms] by (simp add: sort_js_def)
  with Cons show ?case by simp
qed

text \<open>A sorted list is determined by the order inside each class of equal elements.\<close>

lemma stable_sorted_unique:
  assumes refl: "\<And>a. le a a"
    and sx: "sorted_wrt le xs" and sy: "sorted_wrt le ys"
    and cl: "\<And>r. filter (\<lambda>y. le r y \<and> le y r) xs = filter (\<lambda>y. le r y \<and> le y r) ys"
  shows "xs = ys"
  using sx sy cl
proof (induction xs arbitrary: ys)
  case Nil
  show ?case
  proof (cases ys)
    case Nil
    then show ?thesis by simp
  next
    case (Cons y ys')
    with Nil.prems(3) [of y] refl [of y] show ?thesis by simp
  qed
next
  case (Cons x xs)
  from Cons.prems(3) [of x] refl [of x] obtain y ys' where ys: "ys = y # ys'"
    by (cases ys) auto
  have xy: "x = y"
  proof (cases "le x y \<and> le y x")
    case True
    with Cons.prems(3) [of x] refl [of x] ys show ?thesis by simp
  next
    case False
    with Cons.prems(3) [of x] refl [of x] ys
    have "x \<in> set (filter (\<lambda>z. le x z \<and> le z x) ys')"
      by (metis (mono_tags, lifting) filter.simps(2) list.set_intros(1))
    then have "x \<in> set ys'" by simp
    with Cons.prems(2) ys have 1: "le y x" by simp
    from False Cons.prems(3) [of y] refl [of y] ys
    have "y \<in> set (filter (\<lambda>z. le y z \<and> le z y) (x # xs))"
      by (metis (mono_tags, lifting) filter.simps(2) list.set_intros(1))
    with False have "y \<in> set xs" by auto
    with Cons.prems(1) have "le x y" by simp
    with 1 False show ?thesis by simp
  qed
  have "xs = ys'"
  proof (rule Cons.IH)
    show "sorted_wrt le xs" using Cons.prems(1) by simp
    show "sorted_wrt le ys'" using Cons.prems(2) ys by simp
    fix r
    from Cons.prems(3) [of r] ys xy
    show "filter (\<lambda>y. le r y \<and> le y r) xs = filter (\<lambda>y. le r y \<and> le y r) ys'"
      by (simp split: if_splits)
  qed
  with xy ys show ?case by simp
qed

lemma compareFn_le: "compareFn E c a b \<le> 0 \<longleftrightarrow> spec_notAfter E c a b"
proof -
  have str: "(if s < t then (if d = asc then - 1 else 1)
       else if s > t then (if d = asc then 1 else - 1) else (0::rat)) \<le> 0
     \<longleftrightarrow> (if d = asc then s \<le> t else t \<le> s)" for s t :: jsstring and d
    by (cases d) auto
  show ?thesis
    unfolding compareFn_def spec_notAfter_def Let_def
    by (cases "field (key c) a"; cases "field (key c) b"; simp only: prod.case jsval.case str)
      auto
qed

lemma notAfter_total: "spec_notAfter E c a b \<or> spec_notAfter E c b a"
  unfolding spec_notAfter_def
  by (cases "field (key c) a"; cases "field (key c) b"; cases "direction c") (auto simp: linear)

lemma field_kind: "(\<exists>x. field k a = Number x) \<longleftrightarrow> (\<exists>y. field k b = Number y)"
  by (cases k) (auto split: option.splits)

lemma notAfter_trans:
  assumes "spec_notAfter E c a b" and "spec_notAfter E c b d"
  shows "spec_notAfter E c a d"
proof (cases "\<exists>x. field (key c) a = Number x")
  case True
  then obtain x where x: "field (key c) a = Number x" ..
  from field_kind [of "key c" a b] True obtain y where y: "field (key c) b = Number y" by blast
  from field_kind [of "key c" a d] True obtain z where z: "field (key c) d = Number z" by blast
  from assms show ?thesis
    unfolding spec_notAfter_def x y z by (cases "direction c") auto
next
  case False
  with field_kind [of "key c" a b] field_kind [of "key c" a d]
  have n: "\<nexists>x. field (key c) a = Number x" "\<nexists>x. field (key c) b = Number x"
    "\<nexists>x. field (key c) d = Number x" by blast+
  have gen: "spec_notAfter E c p q =
      (if direction c = asc
       then toLowerCase E (String_of E (field (key c) p)) \<le> toLowerCase E (String_of E (field (key c) q))
       else toLowerCase E (String_of E (field (key c) q)) \<le> toLowerCase E (String_of E (field (key c) p)))"
    if "\<nexists>x. field (key c) p = Number x" for p q
    using that unfolding spec_notAfter_def
    by (cases "field (key c) p"; cases "field (key c) q") simp_all
  from assms show ?thesis
    unfolding gen [OF n(1)] gen [OF n(2)] by (cases "direction c") auto
qed

lemma compareFn_total: "compareFn E c a b \<le> 0 \<or> compareFn E c b a \<le> 0"
  unfolding compareFn_le by (rule notAfter_total)

lemma compareFn_trans:
  "compareFn E c a b \<le> 0 \<Longrightarrow> compareFn E c b d \<le> 0 \<Longrightarrow> compareFn E c a d \<le> 0"
  unfolding compareFn_le by (rule notAfter_trans)

lemma sorted_getSortedResults:
  assumes "sortConfig s = Some c"
  shows "sorted_wrt (spec_notAfter E c) (getSortedResults E s)"
proof -
  have "sorted_wrt (\<lambda>a b. compareFn E c a b \<le> 0) (sort_js (compareFn E c) (results s))"
    by (rule sorted_sort_js) (rule compareFn_total, rule compareFn_trans)
  then show ?thesis
    unfolding compareFn_le using assms by (simp add: getSortedResults_def)
qed

lemma classes_getSortedResults:
  assumes "sortConfig s = Some c"
  shows "filter (\<lambda>x. spec_notAfter E c r x \<and> spec_notAfter E c x r) (getSortedResults E s) =
   filter (\<lambda>x. spec_notAfter E c r x \<and> spec_notAfter E c x r) (results s)"
proof -
  have "filter (\<lambda>y. compareFn E c r y \<le> 0 \<and> compareFn E c y r \<le> 0) (sort_js (compareFn E c) (results s)) =
        filter (\<lambda>y. compareFn E c r y \<le> 0 \<and> compareFn E c y r \<le> 0) (results s)"
    by (rule filter_sort_js) (rule compareFn_trans)
  then show ?thesis
    unfolding compareFn_le using assms by (simp add: getSortedResults_def)
qed

lemma notAfter_refl: "spec_notAfter E c a a"
  using notAfter_total [of E c a a] by simp



subsection \<open>Toggling the direction\<close>

lemma followers_notAfter:
  "spec_notAfter E \<lparr>key = K_followers, direction = asc\<rparr> a b \<longleftrightarrow> followers a \<le> followers b"
  "spec_notAfter E \<lparr>key = K_followers, direction = desc\<rparr> a b \<longleftrightarrow> followers b \<le> followers a"
  by (simp_all add: spec_notAfter_def)

lemma filter_distinct_key:
  "distinct (map f xs) \<Longrightarrow> length (filter (\<lambda>x. f x = v) xs) \<le> 1"
  by (induction xs) (auto simp: filter_empty_conv image_iff)

lemma rev_short: "length xs \<le> 1 \<Longrightarrow> rev xs = xs"
  by (cases xs) simp_all

lemma followers_desc_rev_asc:
  assumes d: "distinct (map followers (results s))"
    and up: "sortConfig u = Some \<lparr>key = K_followers, direction = asc\<rparr>" "results u = results s"
    and down: "sortConfig w = Some \<lparr>key = K_followers, direction = desc\<rparr>" "results w = results s"
  shows "getSortedResults E w = rev (getSortedResults E u)"
proof -
  let ?asc = "\<lparr>key = K_followers, direction = asc\<rparr>"
  let ?desc = "\<lparr>key = K_followers, direction = desc\<rparr>"
  let ?A = "getSortedResults E u" and ?D = "getSortedResults E w"
  have cls: "(spec_notAfter E ?desc r x \<and> spec_notAfter E ?desc x r) \<longleftrightarrow> followers x = followers r"
    "(spec_notAfter E ?asc r x \<and> spec_notAfter E ?asc x r) \<longleftrightarrow> followers x = followers r" for r x :: InstagramData
    unfolding followers_notAfter by auto
  have D: "filter (\<lambda>x. followers x = followers r) ?D = filter (\<lambda>x. followers x = followers r) (results s)" for r :: InstagramData
    using classes_getSortedResults [OF down(1), of E r] unfolding cls down(2) .
  have A: "filter (\<lambda>x. followers x = followers r) ?A = filter (\<lambda>x. followers x = followers r) (results s)" for r :: InstagramData
    using classes_getSortedResults [OF up(1), of E r] unfolding cls up(2) .
  have "rev ?A = ?D"
  proof (rule stable_sorted_unique [of "spec_notAfter E ?desc"])
    show "spec_notAfter E ?desc a a" for a by (rule notAfter_refl)
    have "sorted_wrt (spec_notAfter E ?asc) ?A" using up(1) by (rule sorted_getSortedResults)
    then show "sorted_wrt (spec_notAfter E ?desc) (rev ?A)"
      unfolding sorted_wrt_rev followers_notAfter .
    show "sorted_wrt (spec_notAfter E ?desc) ?D" using down(1) by (rule sorted_getSortedResults)
    fix r :: InstagramData
    have "filter (\<lambda>x. followers x = followers r) (rev ?A) = rev (filter (\<lambda>x. followers x = followers r) (results s))"
      unfolding rev_filter [symmetric] A ..
    also have "\<dots> = filter (\<lambda>x. followers x = followers r) (results s)"
      using filter_distinct_key [OF d, of "followers r"] by (rule rev_short)
    finally show "filter (\<lambda>y. spec_notAfter E ?desc r y \<and> spec_notAfter E ?desc y r) (rev ?A) =
        filter (\<lambda>y. spec_notAfter E ?desc r y \<and> spec_notAfter E ?desc y r) ?D"
      unfolding cls D .
  qed
  then show ?thesis by simp
qed

lemma tie_rows:
  "followers (failedRow h) = 0" "followers testRow = 71336" "followers abRow = 70080"
  by (simp_all add: failedRow_def pushed_def testRow_def abRow_def)

lemma compare_followers:
  "compareFn E \<lparr>key = K_followers, direction = asc\<rparr> a b = followers a - followers b"
  "compareFn E \<lparr>key = K_followers, direction = desc\<rparr> a b = followers b - followers a"
  by (simp_all add: compareFn_def)

text \<open>
  C6 as stated fails when two rows have the same number of followers: the sort is stable
  in both directions, so the tied rows keep their stored order both times and the
  descending list is not the ascending one reversed. Two failed requests, both with 0
  followers, and one success show it.
\<close>

theorem followers_toggle_counterexample:
  "getSortedResults basicLatin (sortData K_followers tieState)
     = [failedRow ''a!'', failedRow ''b!'', testRow] \<and>
   getSortedResults basicLatin (sortData K_followers (sortData K_followers tieState))
     = [testRow, failedRow ''a!'', failedRow ''b!''] \<and>
   rev [failedRow ''a!'', failedRow ''b!'', testRow] = [testRow, failedRow ''b!'', failedRow ''a!''] \<and>
   failedRow ''a!'' \<noteq> failedRow ''b!''"
proof -
  have 1: "getSortedResults basicLatin (sortData K_followers tieState)
     = [failedRow ''a!'', failedRow ''b!'', testRow]"
    by (simp add: getSortedResults_def sortData_def tieState_def sort_js_def compare_followers tie_rows)
  have 2: "getSortedResults basicLatin (sortData K_followers (sortData K_followers tieState))
     = [testRow, failedRow ''a!'', failedRow ''b!'']"
    by (simp add: getSortedResults_def sortData_def tieState_def sort_js_def compare_followers tie_rows)
  have 3: "failedRow ''a!'' \<noteq> failedRow ''b!''"
    by (simp add: failedRow_def pushed_def js_def)
  from 1 2 3 show ?thesis by simp
qed

text \<open>
  C6, amended. For every 3-row result set whose \<open>followers\<close> values are pairwise
  different, clicking the followers column once sorts ascending, clicking it again sorts
  descending, and the descending list is exactly the ascending one reversed.
\<close>

theorem followers_toggle_reverses:
  assumes "length (results s) = 3" and "distinct (map followers (results s))"
  shows "sortConfig (sortData K_followers (s\<lparr>sortConfig := None\<rparr>))
           = Some \<lparr>key = K_followers, direction = asc\<rparr> \<and>
         sortConfig (sortData K_followers (sortData K_followers (s\<lparr>sortConfig := None\<rparr>)))
           = Some \<lparr>key = K_followers, direction = desc\<rparr> \<and>
         getSortedResults E (sortData K_followers (sortData K_followers (s\<lparr>sortConfig := None\<rparr>)))
           = rev (getSortedResults E (sortData K_followers (s\<lparr>sortConfig := None\<rparr>)))"
proof -
  let ?u = "sortData K_followers (s\<lparr>sortConfig := None\<rparr>)"
  let ?w = "sortData K_followers ?u"
  have u: "sortConfig ?u = Some \<lparr>key = K_followers, direction = asc\<rparr>" "results ?u = results s"
    by (simp_all add: sortData_def)
  have w: "sortConfig ?w = Some \<lparr>key = K_followers, direction = desc\<rparr>" "results ?w = results s"
    by (simp_all add: sortData_def)
  from followers_desc_rev_asc [OF assms(2) u w] u(1) w(1) show ?thesis by simp
qed


theorem followers_toggle_reverses_witness:
  "length (results distinctState) = 3 \<and> distinct (map followers (results distinctState)) \<and>
   getSortedResults basicLatin (sortData K_followers (distinctState\<lparr>sortConfig := None\<rparr>))
     = [failedRow ''x!'', abRow, testRow] \<and>
   getSortedResults basicLatin (sortData K_followers (sortData K_followers (distinctState\<lparr>sortConfig := None\<rparr>)))
     = [testRow, abRow, failedRow ''x!'']"
proof -
  have l: "length (results distinctState) = 3"
    and d: "distinct (map followers (results distinctState))"
    by (simp_all add: distinctState_def tie_rows)
  have a: "getSortedResults basicLatin (sortData K_followers (distinctState\<lparr>sortConfig := None\<rparr>))
     = [failedRow ''x!'', abRow, testRow]"
    by (simp add: getSortedResults_def sortData_def distinctState_def sort_js_def compare_followers tie_rows)
  from followers_toggle_reverses [OF l d, of basicLatin] l d a show ?thesis by simp
qed

subsection \<open>The analysis run\<close>

lemma analyzeLoop_map:
  "analyzeLoop fetch i hs acc = acc @ map (\<lambda>k. pushed (hs ! k) (fetch (i + k) (hs ! k))) [0..<length hs]"
proof (induction hs arbitrary: i acc)
  case Nil
  show ?case by simp
next
  case (Cons h hs)
  have "map (\<lambda>k. pushed ((h # hs) ! k) (fetch (i + k) ((h # hs) ! k))) [0..<length (h # hs)] =
      pushed h (fetch i h) # map (\<lambda>k. pushed (hs ! k) (fetch (Suc i + k) (hs ! k))) [0..<length hs]"
    by (simp add: upt_conv_Cons map_Suc_upt [symmetric] del: upt_Suc)
  with Cons [of "Suc i" "acc @ [pushed h (fetch i h)]"] show ?case by simp
qed

lemma analyzeLoop_rows:
  "length (analyzeLoop fetch 0 hs []) = length hs"
  "k < length hs \<Longrightarrow> analyzeLoop fetch 0 hs [] ! k = pushed (hs ! k) (fetch k (hs ! k))"
  by (simp_all add: analyzeLoop_map)

lemma notBlank_samples:
  "\<not> notBlank []" "notBlank (js ''gone'')" "notBlank (js ''test'')" "notBlank (js ''a!'')"
  by (simp_all add: notBlank_def trim_def isWhiteSpace_def js_def)

text \<open>
  C4 as stated fails for a handle list with no non-blank entry: the guard
  \<open>if (validHandles.length === 0) return\<close> leaves before anything is set, so the results
  list is not replaced; an earlier result stays while there is no handle to account
  for it.
\<close>

theorem analyzeAccounts_blank_counterexample:
  "filter notBlank (handles staleState) = [] \<and>
   results staleState = [testRow] \<and>
   results (analyzeAccounts sampleFetch staleState) = [testRow] \<and>
   length (results (analyzeAccounts sampleFetch staleState))
     \<noteq> length (filter notBlank (handles staleState))"
  by (simp add: staleState_def analyzeAccounts_def notBlank_samples)

text \<open>
  C4, amended. When no handle is non-blank, \<open>analyzeAccounts\<close> changes nothing. Otherwise,
  for every sequence of outcomes, the new results list has exactly one record per
  non-blank handle, in input order: the response's record tagged \<open>success\<close> when the
  response is OK; on a non-OK response or a failure an \<open>error\<close>-tagged record with the
  original handle, all three numeric fields zero, and the server's message or a generic
  one (\<open>Failed to fetch data\<close>, \<open>Network error\<close>). No outcome stops the loop, the results
  list is replaced and \<open>loading\<close> is cleared; handles and sort settings stay.
\<close>

theorem analyzeAccounts_rows:
  "(filter notBlank (handles s) = [] \<longrightarrow> analyzeAccounts fetch s = s) \<and>
   (filter notBlank (handles s) \<noteq> [] \<longrightarrow>
      length (results (analyzeAccounts fetch s)) = length (filter notBlank (handles s)) \<and>
      loading (analyzeAccounts fetch s) = False \<and>
      handles (analyzeAccounts fetch s) = handles s \<and>
      sortConfig (analyzeAccounts fetch s) = sortConfig s \<and>
      (\<forall>k < length (filter notBlank (handles s)).
         (case fetch k (filter notBlank (handles s) ! k) of
            Ok data \<Rightarrow> results (analyzeAccounts fetch s) ! k = data\<lparr>status := Some Success\<rparr>
          | NotOk e \<Rightarrow>
              results (analyzeAccounts fetch s) ! k =
                \<lparr>handle = filter notBlank (handles s) ! k, name = js ''N/A'', followers = 0,
                 averageViews = 0, category = js ''N/A'', engagementRate = 0,
                 location = js ''N/A'', status = Some Error,
                 error = Some (if e = None \<or> e = Some [] then js ''Failed to fetch data'' else the e)\<rparr>
          | Rejected \<Rightarrow>
              results (analyzeAccounts fetch s) ! k =
                \<lparr>handle = filter notBlank (handles s) ! k, name = js ''N/A'', followers = 0,
                 averageViews = 0, category = js ''N/A'', engagementRate = 0,
                 location = js ''N/A'', status = Some Error,
                 error = Some (js ''Network error'')\<rparr>)))"
proof -
  let ?v = "filter notBlank (handles s)"
  have blank: "analyzeAccounts fetch s = s" if "?v = []"
    using that by (simp add: analyzeAccounts_def)
  have run: "analyzeAccounts fetch s = s\<lparr>results := analyzeLoop fetch 0 ?v [], loading := False\<rparr>"
    if "?v \<noteq> []"
    using that by (simp add: analyzeAccounts_def Let_def)
  have row: "(case fetch k (?v ! k) of
            Ok data \<Rightarrow> analyzeLoop fetch 0 ?v [] ! k = data\<lparr>status := Some Success\<rparr>
          | NotOk e \<Rightarrow>
              analyzeLoop fetch 0 ?v [] ! k =
                \<lparr>handle = ?v ! k, name = js ''N/A'', followers = 0,
                 averageViews = 0, category = js ''N/A'', engagementRate = 0,
                 location = js ''N/A'', status = Some Error,
                 error = Some (if e = None \<or> e = Some [] then js ''Failed to fetch data'' else the e)\<rparr>
          | Rejected \<Rightarrow>
              analyzeLoop fetch 0 ?v [] ! k =
                \<lparr>handle = ?v ! k, name = js ''N/A'', followers = 0,
                 averageViews = 0, category = js ''N/A'', engagementRate = 0,
                 location = js ''N/A'', status = Some Error,
                 error = Some (js ''Network error'')\<rparr>)" if "k < length ?v" for k
    unfolding analyzeLoop_rows(2) [OF that]
    by (auto simp: pushed_def split: outcome.split option.split)
  show ?thesis
  proof (cases "?v = []")
    case True
    with blank show ?thesis by simp
  next
    case False
    have r: "results (analyzeAccounts fetch s) = analyzeLoop fetch 0 ?v []"
      and l: "loading (analyzeAccounts fetch s) = False"
      and h: "handles (analyzeAccounts fetch s) = handles s"
      and c: "sortConfig (analyzeAccounts fetch s) = sortConfig s"
      unfolding run [OF False] by simp_all
    show ?thesis
      unfolding r l h c using False row analyzeLoop_rows(1) [of fetch ?v] by blast
  qed
qed


theorem analyzeAccounts_rows_witness:
  "filter notBlank (handles batchState) = [js ''gone'', js ''test'', js ''a!''] \<and>
   results (analyzeAccounts sampleFetch batchState) =
     [failedRow ''gone'', testRow,
      \<lparr>handle = js ''a!'', name = js ''N/A'', followers = 0, averageViews = 0,
       category = js ''N/A'', engagementRate = 0, location = js ''N/A'',
       status = Some Error, error = Some (js ''Invalid handle format'')\<rparr>] \<and>
   loading (analyzeAccounts sampleFetch batchState) = False"
proof -
  have v: "filter notBlank (handles batchState) = [js ''gone'', js ''test'', js ''a!'']"
    by (simp add: batchState_def notBlank_samples)
  have f: "sampleFetch 0 (js ''gone'') = Rejected"
    "sampleFetch (Suc 0) (js ''test'') = Ok (testRow\<lparr>status := None\<rparr>)"
    "sampleFetch (Suc (Suc 0)) (js ''a!'') = NotOk (Some (js ''Invalid handle format''))"
    by (simp_all add: sampleFetch_def js_def)
  have ne: "js ''Invalid handle format'' \<noteq> []" by (simp add: js_def)
  have r: "results (analyzeAccounts sampleFetch batchState) =
     [failedRow ''gone'', testRow,
      \<lparr>handle = js ''a!'', name = js ''N/A'', followers = 0, averageViews = 0,
       category = js ''N/A'', engagementRate = 0, location = js ''N/A'',
       status = Some Error, error = Some (js ''Invalid handle format'')\<rparr>]"
    using ne by (simp add: analyzeAccounts_def Let_def v f pushed_def failedRow_def testRow_def)
  from analyzeAccounts_rows [of batchState sampleFetch] v r show ?thesis by simp
qed

subsection \<open>Export\<close>

text \<open>
  C9. For every result set, serializer and clock reading, \<open>exportToCSV\<close> and
  \<open>exportToExcel\<close> hand the same rows to the serializer and download the same text; they
  differ only in the MIME type (\<open>text/csv\<close>, \<open>application/vnd.ms-excel\<close>) and in the
  extension of the file name (\<open>.csv\<close>, \<open>.xlsx\<close>).
\<close>

theorem exports_same_content:
  "content (exportToCSV unparse now s) = content (exportToExcel unparse now s) \<and>
   content (exportToCSV unparse now s) = unparse (csvData (results s)) \<and>
   mime (exportToCSV unparse now s) = js ''text/csv'' \<and>
   mime (exportToExcel unparse now s) = js ''application/vnd.ms-excel'' \<and>
   js ''text/csv'' \<noteq> js ''application/vnd.ms-excel'' \<and>
   filename (exportToCSV unparse now s) = js ''instagram-analysis-'' @ isoDate now @ js ''.csv'' \<and>
   filename (exportToExcel unparse now s) = js ''instagram-analysis-'' @ isoDate now @ js ''.xlsx'' \<and>
   exportToExcel unparse now s =
     (exportToCSV unparse now s)
       \<lparr>mime := js ''application/vnd.ms-excel'',
        filename := js ''instagram-analysis-'' @ isoDate now @ js ''.xlsx''\<rparr>"
proof -
  have "js ''text/csv'' \<noteq> js ''application/vnd.ms-excel''" by (simp add: js_def)
  then show ?thesis by (simp add: exportToCSV_def exportToExcel_def Let_def)
qed

lemma zetaAlpha_sorted:
  "getSortedResults basicLatin zetaAlpha = [failedRow ''alpha'', failedRow ''Zeta'']"
proof -
  have "js ''alpha'' < js ''zeta''" by (simp add: js_def)
  then have "\<not> js ''zeta'' < js ''alpha''" by simp
  then have "compareFn basicLatin \<lparr>key = K_handle, direction = asc\<rparr> (failedRow ''Zeta'') (failedRow ''alpha'') = 1"
    using \<open>js ''alpha'' < js ''zeta''\<close>
    by (simp add: compareFn_def failedRow_def pushed_def basicLatin_def) (simp add: js_def)
  then show ?thesis
    by (simp add: getSortedResults_def zetaAlpha_def sort_js_def)
qed

lemma csvData_rows:
  "length (csvData rs) = length rs"
  "i < length rs \<Longrightarrow> csvData rs ! i =
     [(js ''Handle'', String (handle (rs ! i))),
      (js ''Name'', String (name (rs ! i))),
      (js ''Followers'', Number (followers (rs ! i))),
      (js ''Average Views'', Number (averageViews (rs ! i))),
      (js ''Category'', String (category (rs ! i))),
      (js ''Engagement Rate (%)'', Number (engagementRate (rs ! i))),
      (js ''Location'', String (location (rs ! i)))]"
  by (simp_all add: csvData_def)

lemma failedRow_line:
  "join (js '','') (map (\<lambda>(_, v). String_of basicLatin v) (hd (csvData [failedRow h]))) =
     js h @ js '',N/A,0,0,N/A,0,N/A''"
proof -
  have d: "digits 0 = [48]" by (simp add: digits.simps [of 0])
  show ?thesis
    by (simp add: csvData_def failedRow_def pushed_def basicLatin_def d js_def del: digits.simps)
qed

lemma zetaAlpha_text:
  "plainUnparse (csvData [failedRow ''Zeta'', failedRow ''alpha'']) =
     js ''Handle,Name,Followers,Average Views,Category,Engagement Rate (%),Location'' @ [13, 10] @
     js ''Zeta,N/A,0,0,N/A,0,N/A'' @ [13, 10] @
     js ''alpha,N/A,0,0,N/A,0,N/A''"
proof -
  have c: "csvData [failedRow ''Zeta'', failedRow ''alpha''] =
      [hd (csvData [failedRow ''Zeta'']), hd (csvData [failedRow ''alpha''])]"
    by (simp add: csvData_def)
  have h: "join (js '','') (map fst (hd (csvData [failedRow ''Zeta'']))) =
      js ''Handle,Name,Followers,Average Views,Category,Engagement Rate (%),Location''"
    by (simp add: csvData_def js_def)
  show ?thesis
    unfolding c plainUnparse_def list.case h
    by (simp add: failedRow_line del: digits.simps) (simp add: js_def)
qed

text \<open>
  C10. The export does not depend on the sort settings: two states with the same stored
  results export the same files, and changing or toggling the sort changes nothing. The
  text is the serialization of one row per stored result, in the stored order: row \<open>i\<close>
  handed to the serializer holds the seven columns of stored result \<open>i\<close>, whatever order
  the table is currently rendered in.
\<close>

theorem export_ignores_sortConfig:
  "(results sa = results sb \<longrightarrow>
      exportToCSV unparse now sa = exportToCSV unparse now sb \<and>
      exportToExcel unparse now sa = exportToExcel unparse now sb) \<and>
   exportToCSV unparse now (s\<lparr>sortConfig := c\<rparr>) = exportToCSV unparse now s \<and>
   exportToExcel unparse now (s\<lparr>sortConfig := c\<rparr>) = exportToExcel unparse now s \<and>
   exportToCSV unparse now (sortData k s) = exportToCSV unparse now s \<and>
   exportToExcel unparse now (sortData k s) = exportToExcel unparse now s \<and>
   content (exportToCSV unparse now s) = unparse (csvData (results s)) \<and>
   content (exportToExcel unparse now s) = unparse (csvData (results s)) \<and>
   length (csvData (results s)) = length (results s) \<and>
   (\<forall>i<length (results s).
      csvData (results s) ! i =
        [(js ''Handle'', String (handle (results s ! i))),
         (js ''Name'', String (name (results s ! i))),
         (js ''Followers'', Number (followers (results s ! i))),
         (js ''Average Views'', Number (averageViews (results s ! i))),
         (js ''Category'', String (category (results s ! i))),
         (js ''Engagement Rate (%)'', Number (engagementRate (results s ! i))),
         (js ''Location'', String (location (results s ! i)))])"
proof -
  have a: "(results sa = results sb \<longrightarrow>
      exportToCSV unparse now sa = exportToCSV unparse now sb \<and>
      exportToExcel unparse now sa = exportToExcel unparse now sb) \<and>
   exportToCSV unparse now (s\<lparr>sortConfig := c\<rparr>) = exportToCSV unparse now s \<and>
   exportToExcel unparse now (s\<lparr>sortConfig := c\<rparr>) = exportToExcel unparse now s \<and>
   exportToCSV unparse now (sortData k s) = exportToCSV unparse now s \<and>
   exportToExcel unparse now (sortData k s) = exportToExcel unparse now s \<and>
   content (exportToCSV unparse now s) = unparse (csvData (results s)) \<and>
   content (exportToExcel unparse now s) = unparse (csvData (results s))"
    by (simp add: exportToCSV_def exportToExcel_def Let_def sortData_def)
  from a csvData_rows(1) [of "results s"] csvData_rows(2) [of _ "results s"]
  show ?thesis by blast
qed

theorem export_ignores_sortConfig_witness:
  "results zetaAlpha = results (zetaAlpha\<lparr>sortConfig := None\<rparr>) \<and>
   sortConfig zetaAlpha \<noteq> sortConfig (zetaAlpha\<lparr>sortConfig := None\<rparr>) \<and>
   exportToCSV plainUnparse sampleNow zetaAlpha
     = exportToCSV plainUnparse sampleNow (zetaAlpha\<lparr>sortConfig := None\<rparr>) \<and>
   exportToExcel plainUnparse sampleNow zetaAlpha
     = exportToExcel plainUnparse sampleNow (zetaAlpha\<lparr>sortConfig := None\<rparr>) \<and>
   content (exportToCSV plainUnparse sampleNow zetaAlpha)
     = plainUnparse (csvData [failedRow ''Zeta'', failedRow ''alpha'']) \<and>
   content (exportToCSV plainUnparse sampleNow zetaAlpha) =
     js ''Handle,Name,Followers,Average Views,Category,Engagement Rate (%),Location'' @ [13, 10] @
     js ''Zeta,N/A,0,0,N/A,0,N/A'' @ [13, 10] @
     js ''alpha,N/A,0,0,N/A,0,N/A'' \<and>
   content (exportToExcel plainUnparse sampleNow zetaAlpha) =
     js ''Handle,Name,Followers,Average Views,Category,Engagement Rate (%),Location'' @ [13, 10] @
     js ''Zeta,N/A,0,0,N/A,0,N/A'' @ [13, 10] @
     js ''alpha,N/A,0,0,N/A,0,N/A'' \<and>
   csvData (results zetaAlpha) ! 0 = hd (csvData [failedRow ''Zeta'']) \<and>
   csvData (results zetaAlpha) ! 1 = hd (csvData [failedRow ''alpha'']) \<and>
   getSortedResults basicLatin zetaAlpha = [failedRow ''alpha'', failedRow ''Zeta'']"
proof -
  have r: "results zetaAlpha = results (zetaAlpha\<lparr>sortConfig := None\<rparr>)" by simp
  have c: "sortConfig zetaAlpha \<noteq> sortConfig (zetaAlpha\<lparr>sortConfig := None\<rparr>)"
    by (simp add: zetaAlpha_def)
  have z: "results zetaAlpha = [failedRow ''Zeta'', failedRow ''alpha'']"
    by (simp add: zetaAlpha_def)
  note T = export_ignores_sortConfig
    [where sa = zetaAlpha and sb = "zetaAlpha\<lparr>sortConfig := None\<rparr>" and unparse = plainUnparse
      and now = sampleNow and s = zetaAlpha and c = None and k = K_handle]
  from T r
  have e: "exportToCSV plainUnparse sampleNow zetaAlpha
      = exportToCSV plainUnparse sampleNow (zetaAlpha\<lparr>sortConfig := None\<rparr>)"
    "exportToExcel plainUnparse sampleNow zetaAlpha
      = exportToExcel plainUnparse sampleNow (zetaAlpha\<lparr>sortConfig := None\<rparr>)"
    "content (exportToCSV plainUnparse sampleNow zetaAlpha)
      = plainUnparse (csvData (results zetaAlpha))"
    "content (exportToExcel plainUnparse sampleNow zetaAlpha)
      = plainUnparse (csvData (results zetaAlpha))"
    by blast+
  from T have rows: "\<forall>i<length (results zetaAlpha).
      csvData (results zetaAlpha) ! i =
        [(js ''Handle'', String (handle (results zetaAlpha ! i))),
         (js ''Name'', String (name (results zetaAlpha ! i))),
         (js ''Followers'', Number (followers (results zetaAlpha ! i))),
         (js ''Average Views'', Number (averageViews (results zetaAlpha ! i))),
         (js ''Category'', String (category (results zetaAlpha ! i))),
         (js ''Engagement Rate (%)'', Number (engagementRate (results zetaAlpha ! i))),
         (js ''Location'', String (location (results zetaAlpha ! i)))]"
    by blast
  from rows [rule_format, of 0]
  have r0: "csvData (results zetaAlpha) ! 0 = hd (csvData [failedRow ''Zeta''])"
    by (simp add: z csvData_def)
  from rows [rule_format, of 1]
  have r1: "csvData (results zetaAlpha) ! 1 = hd (csvData [failedRow ''alpha''])"
    by (simp add: z csvData_def)
  note t = zetaAlpha_text
  from r c e(1) e(2) e(3) [unfolded z] e(3) [unfolded z t] e(4) [unfolded z t] r0 r1 zetaAlpha_sorted
  show ?thesis by blast
qed

end
